theory Spec2Isabelle
  imports Complex_Main "HOL-Library.List_Lexorder" "HOL-Library.Char_ord"
begin

section \<open>Python values, exceptions and results\<close>

text \<open>
  The server (\<^verbatim>\<open>server.py\<close>) is eight functions over Python's \<^verbatim>\<open>datetime\<close> and
  \<^verbatim>\<open>zoneinfo\<close> modules. Each returns a \<^verbatim>\<open>dict\<close> with string keys. A dict literal is
  modelled as an association list in the order of the literal; the values are the
  Python values that occur in the payloads. A \<^verbatim>\<open>float\<close> is a double and is modelled by
  the rational number it stands for.

  Strings are lists of code points below 256.
\<close>

datatype pyval =
    VStr string
  | VInt int
  | VFloat rat
  | VBool bool
  | VList "pyval list"
  | VDict "(string \<times> pyval) list"

type_synonym payload = "(string \<times> pyval) list"

text \<open>
  Exceptions are values: the class and the text that \<^verbatim>\<open>str(e)\<close> gives. The classes are the
  ones the library calls of the server raise; all of them derive from \<^verbatim>\<open>Exception\<close>, and
  \<open>Exception\<close> itself stands for every other subclass (\<^verbatim>\<open>re.error\<close>, \<^verbatim>\<open>KeyError\<close>, ...).
\<close>

datatype exc_class = Exception | ValueError | OverflowError | OSError | TypeError

datatype py_exc = Exc exc_class string

fun exc_cls :: "py_exc \<Rightarrow> exc_class" where
  "exc_cls (Exc c m) = c"

fun exc_str :: "py_exc \<Rightarrow> string" where
  "exc_str (Exc c m) = m"

definition isinstance :: "exc_class \<Rightarrow> exc_class \<Rightarrow> bool" where
  "isinstance c d = (d = Exception \<or> c = d)"

text \<open>Sequencing of calls that may raise: the first exception ends the computation.\<close>

definition bnd :: "py_exc + 'a \<Rightarrow> ('a \<Rightarrow> py_exc + 'b) \<Rightarrow> py_exc + 'b" where
  "bnd m f = (case m of Inl e \<Rightarrow> Inl e | Inr v \<Rightarrow> f v)"

text \<open>
  \<^verbatim>\<open>try: body except (C1, C2) as e: h1 except D as e: h2\<close>: the handlers are tried in
  order; an exception that no handler matches propagates.
\<close>

fun handle :: "(exc_class list \<times> (py_exc \<Rightarrow> 'a)) list \<Rightarrow> py_exc \<Rightarrow> py_exc + 'a" where
  "handle [] e = Inl e"
| "handle ((cs, h) # hs) e =
     (if \<exists>d \<in> set cs. isinstance (exc_cls e) d then Inr (h e) else handle hs e)"

definition try_except :: "py_exc + 'a \<Rightarrow> (exc_class list \<times> (py_exc \<Rightarrow> 'a)) list \<Rightarrow> py_exc + 'a" where
  "try_except body hs = (case body of Inr v \<Rightarrow> Inr v | Inl e \<Rightarrow> handle hs e)"

section \<open>Strings\<close>

definition py_lower_char :: "char \<Rightarrow> char" where
  "py_lower_char c =
     (let n = (of_char c :: int)
      in if (65 \<le> n \<and> n \<le> 90) \<or> (192 \<le> n \<and> n \<le> 222 \<and> n \<noteq> 215)
         then char_of (n + 32) else c)"

definition lower :: "string \<Rightarrow> string" where
  "lower s = map py_lower_char s"

text \<open>\<^verbatim>\<open>a in b\<close> on strings: \<open>a\<close> occurs in \<open>b\<close> as a contiguous run.\<close>

fun str_startswith :: "string \<Rightarrow> string \<Rightarrow> bool" where
  "str_startswith s [] = True"
| "str_startswith [] (p # ps) = False"
| "str_startswith (c # cs) (p # ps) = (c = p \<and> str_startswith cs ps)"

fun str_in :: "string \<Rightarrow> string \<Rightarrow> bool" where
  "str_in a [] = (a = [])"
| "str_in a (c # cs) = (str_startswith (c # cs) a \<or> str_in a cs)"

text \<open>Whitespace as the regular-expression class \<^verbatim>\<open>\s\<close> sees it, below code point 256.\<close>

definition is_space :: "char \<Rightarrow> bool" where
  "is_space c = ((of_char c :: int) \<in> {9, 10, 11, 12, 13, 28, 29, 30, 31, 32, 133, 160})"

definition is_digit :: "char \<Rightarrow> bool" where
  "is_digit c = (48 \<le> (of_char c :: int) \<and> (of_char c :: int) \<le> 57)"

definition digit_val :: "char \<Rightarrow> int" where
  "digit_val c = of_char c - 48"

definition digit_char :: "int \<Rightarrow> char" where
  "digit_char d = char_of (48 + d)"

text \<open>\<^verbatim>\<open>int(s)\<close> on a string of decimal digits.\<close>

definition int_of_digits :: "string \<Rightarrow> int" where
  "int_of_digits s = foldl (\<lambda>a c. 10 * a + digit_val c) 0 s"

text \<open>The decimal digits of a non-negative integer.\<close>

function str_nat :: "int \<Rightarrow> string" where
  "str_nat n = (if n < 10 then [digit_char n] else str_nat (n div 10) @ [digit_char (n mod 10)])"
  by pat_completeness auto
termination
  by (relation "measure nat") auto

declare str_nat.simps [simp del]

definition str_int :: "int \<Rightarrow> string" where
  "str_int i = (if i < 0 then CHR ''-'' # str_nat (- i) else str_nat i)"

text \<open>\<^verbatim>\<open>"%0wd" % n\<close> for \<open>n \<ge> 0\<close>.\<close>

definition zpad :: "nat \<Rightarrow> int \<Rightarrow> string" where
  "zpad w n = (let s = str_nat n in replicate (w - length s) CHR ''0'' @ s)"

text \<open>\<^verbatim>\<open>repr(s)\<close> of a string, as \<^verbatim>\<open>%r\<close> formats it in the parser's messages.\<close>

definition hex_digit :: "int \<Rightarrow> char" where
  "hex_digit d = (if d < 10 then char_of (48 + d) else char_of (87 + d))"

definition is_printable :: "char \<Rightarrow> bool" where
  "is_printable c =
     (let n = (of_char c :: int) in (32 \<le> n \<and> n \<le> 126) \<or> (161 \<le> n \<and> n \<noteq> 173))"

definition repr_char :: "char \<Rightarrow> char \<Rightarrow> string" where
  "repr_char q c =
     (let n = (of_char c :: int) in
      if c = q \<or> n = 92 then [CHR 0x5C, c]
      else if n = 9 then [CHR 0x5C, CHR ''t'']
      else if n = 10 then [CHR 0x5C, CHR ''n'']
      else if n = 13 then [CHR 0x5C, CHR ''r'']
      else if is_printable c then [c]
      else [CHR 0x5C, CHR ''x'', hex_digit (n div 16), hex_digit (n mod 16)])"

definition py_repr :: "string \<Rightarrow> string" where
  "py_repr s =
     (let q = (if CHR 0x27 \<in> set s \<and> CHR 0x22 \<notin> set s then CHR 0x22 else CHR 0x27)
      in [q] @ concat (map (repr_char q) s) @ [q])"

section \<open>Floats\<close>

text \<open>
  An operation on floats, and the true division of two integers, gives the double nearest
  to the exact result, a tie going to the even significand. Around a number of binary
  exponent \<open>e\<close> the doubles are the multiples of \<^verbatim>\<open>2**(e-52)\<close>; below \<^verbatim>\<open>2**-1022\<close> they are
  the multiples of \<^verbatim>\<open>2**-1074\<close>. The floats of the server are numbers of seconds and of
  hours of a magnitude below \<^verbatim>\<open>10**14\<close>, so the overflow to infinity is out of reach and
  is not modelled.
\<close>

text \<open>\<^verbatim>\<open>n.bit_length()\<close> for \<open>n \<ge> 0\<close>.\<close>

function bit_length :: "int \<Rightarrow> int" where
  "bit_length n = (if n \<le> 0 then 0 else 1 + bit_length (n div 2))"
  by pat_completeness auto
termination
  by (relation "measure nat") auto

declare bit_length.simps [simp del]

definition pow2 :: "int \<Rightarrow> rat" where
  "pow2 k = (if 0 \<le> k then 2 ^ nat k else 1 / 2 ^ nat (- k))"

text \<open>The binary exponent \<open>\<lfloor>log\<^sub>2 \<bar>q\<bar>\<rfloor>\<close> of a number other than 0, from the bit lengths of
  its numerator and denominator.\<close>

definition float_exponent :: "rat \<Rightarrow> int" where
  "float_exponent q =
     (case quotient_of \<bar>q\<bar> of (n, d) \<Rightarrow>
        let e = bit_length n - bit_length d in if pow2 e \<le> \<bar>q\<bar> then e else e - 1)"

definition round_half_even :: "rat \<Rightarrow> int" where
  "round_half_even q =
     (let f = \<lfloor>q\<rfloor>; r = q - of_int f
      in if r < 1 / 2 then f else if 1 / 2 < r then f + 1 else if even f then f else f + 1)"

definition round_double :: "rat \<Rightarrow> rat" where
  "round_double q =
     (if q = 0 then 0
      else let ulp = pow2 (max (float_exponent q) (- 1022) - 52)
           in of_int (round_half_even (q / ulp)) * ulp)"

text \<open>\<^verbatim>\<open>a / b\<close> on two integers, and on a float and an integer, for \<open>b \<noteq> 0\<close>; \<^verbatim>\<open>a + b\<close> on
  floats; the conversion of a C integer to a double.\<close>

definition int_truediv :: "int \<Rightarrow> int \<Rightarrow> rat" where
  "int_truediv a b = round_double (of_int a / of_int b)"

definition float_div :: "rat \<Rightarrow> rat \<Rightarrow> rat" where
  "float_div a b = round_double (a / b)"

definition float_add :: "rat \<Rightarrow> rat \<Rightarrow> rat" where
  "float_add a b = round_double (a + b)"

definition float_of_int :: "int \<Rightarrow> rat" where
  "float_of_int n = round_double (of_int n)"

section \<open>The proleptic Gregorian calendar of \<^verbatim>\<open>datetime\<close>\<close>

definition MINYEAR :: int where "MINYEAR = 1"
definition MAXYEAR :: int where "MAXYEAR = 9999"
definition MAXORDINAL :: int where "MAXORDINAL = 3652059"

definition DAYS_IN_MONTH :: "int list" where
  "DAYS_IN_MONTH = [-1, 31, 28, 31, 30, 31, 30, 31, 31, 30, 31, 30, 31]"

definition DAYS_BEFORE_MONTH :: "int list" where
  "DAYS_BEFORE_MONTH = [-1, 0, 31, 59, 90, 120, 151, 181, 212, 243, 273, 304, 334]"

definition is_leap :: "int \<Rightarrow> bool" where
  "is_leap year = (year mod 4 = 0 \<and> (year mod 100 \<noteq> 0 \<or> year mod 400 = 0))"

definition days_before_year :: "int \<Rightarrow> int" where
  "days_before_year year = (let y = year - 1 in y * 365 + y div 4 - y div 100 + y div 400)"

definition days_in_month :: "int \<Rightarrow> int \<Rightarrow> int" where
  "days_in_month year month =
     (if month = 2 \<and> is_leap year then 29 else DAYS_IN_MONTH ! nat month)"

definition days_before_month :: "int \<Rightarrow> int \<Rightarrow> int" where
  "days_before_month year month =
     DAYS_BEFORE_MONTH ! nat month + (if month > 2 \<and> is_leap year then 1 else 0)"

definition ymd2ord :: "int \<Rightarrow> int \<Rightarrow> int \<Rightarrow> int" where
  "ymd2ord year month day = days_before_year year + days_before_month year month + day"

definition DI400Y :: int where "DI400Y = 146097"
definition DI100Y :: int where "DI100Y = 36524"
definition DI4Y :: int where "DI4Y = 1461"

text \<open>
  \<^verbatim>\<open>_ord2ymd\<close>: the date of a day number. \<^verbatim>\<open>divmod\<close> rounds towards minus infinity, as
  \<open>div\<close> and \<open>mod\<close> on \<open>int\<close> do, so the function is defined on every integer; the C
  library's \<^verbatim>\<open>gmtime\<close> is modelled by it too.
\<close>

definition ord2ymd :: "int \<Rightarrow> int \<times> int \<times> int" where
  "ord2ymd n0 =
     (let n = n0 - 1;
          n400 = n div DI400Y; n = n mod DI400Y;
          year = n400 * 400 + 1;
          n100 = n div DI100Y; n = n mod DI100Y;
          n4 = n div DI4Y; n = n mod DI4Y;
          n1 = n div 365; n = n mod 365;
          year = year + n100 * 100 + n4 * 4 + n1
      in if n1 = 4 \<or> n100 = 4 then (year - 1, 12, 31)
         else
           let leapyear = (n1 = 3 \<and> (n4 \<noteq> 24 \<or> n100 = 3));
               month = (n + 50) div 32;
               preceding = DAYS_BEFORE_MONTH ! nat month + (if month > 2 \<and> leapyear then 1 else 0)
           in if preceding > n
              then
                let month = month - 1;
                    preceding = preceding
                      - (DAYS_IN_MONTH ! nat month + (if month = 2 \<and> leapyear then 1 else 0))
                in (year, month, n - preceding + 1)
              else (year, month, n - preceding + 1))"

section \<open>\<^verbatim>\<open>timedelta\<close>\<close>

record timedelta =
  td_days :: int
  td_seconds :: int
  td_microseconds :: int

definition US_PER_DAY :: int where "US_PER_DAY = 86400000000"

text \<open>A duration of a number of microseconds, normalised as \<^verbatim>\<open>timedelta\<close> stores it:
  \<open>0 \<le> seconds < 86400\<close>, \<open>0 \<le> microseconds < 1000000\<close>, the sign in the days.\<close>

definition td_of_us :: "int \<Rightarrow> timedelta" where
  "td_of_us us =
     \<lparr> td_days = us div US_PER_DAY,
       td_seconds = (us mod US_PER_DAY) div 1000000,
       td_microseconds = us mod 1000000 \<rparr>"

definition td_us :: "timedelta \<Rightarrow> int" where
  "td_us td = (td_days td * 86400 + td_seconds td) * 1000000 + td_microseconds td"

text \<open>The construction of a \<^verbatim>\<open>timedelta\<close> from a number of microseconds: the days are
  converted to a C \<^verbatim>\<open>int\<close>, then checked against the range of \<^verbatim>\<open>timedelta\<close>.\<close>

definition td_checked :: "int \<Rightarrow> py_exc + timedelta" where
  "td_checked us =
     (let td = td_of_us us in
      if td_days td < - (2 ^ 31) \<or> 2 ^ 31 \<le> td_days td
      then Inl (Exc OverflowError ''Python int too large to convert to C int'')
      else if td_days td < - 999999999 \<or> 999999999 < td_days td
      then Inl (Exc OverflowError
        (''days='' @ str_int (td_days td) @ ''; must have magnitude <= 999999999''))
      else Inr td)"

text \<open>\<^verbatim>\<open>timedelta(days=..., hours=..., minutes=..., seconds=...)\<close> on integers.\<close>

definition timedelta_new :: "int \<Rightarrow> int \<Rightarrow> int \<Rightarrow> int \<Rightarrow> py_exc + timedelta" where
  "timedelta_new days hours minutes seconds =
     td_checked ((((days * 24 + hours) * 60 + minutes) * 60 + seconds) * 1000000)"

definition td_neg :: "timedelta \<Rightarrow> py_exc + timedelta" where
  "td_neg td = td_checked (- td_us td)"

text \<open>\<^verbatim>\<open>abs(td)\<close>: \<^verbatim>\<open>-td if td.days < 0 else td\<close>.\<close>

definition td_abs :: "timedelta \<Rightarrow> py_exc + timedelta" where
  "td_abs td = (if td_days td < 0 then td_neg td else Inr td)"

text \<open>\<^verbatim>\<open>td.total_seconds()\<close>: the microseconds of the duration, an integer, divided by
  \<^verbatim>\<open>10**6\<close>; the result is a float.\<close>

definition total_seconds :: "timedelta \<Rightarrow> rat" where
  "total_seconds td = int_truediv (td_us td) 1000000"

text \<open>\<^verbatim>\<open>bool(td)\<close>.\<close>

definition td_truthy :: "timedelta \<Rightarrow> bool" where
  "td_truthy td = (td_days td \<noteq> 0 \<or> td_seconds td \<noteq> 0 \<or> td_microseconds td \<noteq> 0)"

section \<open>\<^verbatim>\<open>datetime\<close> values\<close>

text \<open>
  An aware value carries the UTC offset (in microseconds) and the zone abbreviation that
  its \<^verbatim>\<open>tzinfo\<close> reports for it: for a fixed-offset \<^verbatim>\<open>timezone\<close> these are constants, for a
  \<^verbatim>\<open>ZoneInfo\<close> they are the ones in force at the instant the value was made from.
\<close>

record tz =
  tz_offset :: int
  tz_name :: string

record datetime =
  dt_year :: int
  dt_month :: int
  dt_day :: int
  dt_hour :: int
  dt_minute :: int
  dt_second :: int
  dt_microsecond :: int
  dt_tzinfo :: "tz option"
  dt_fold :: int

text \<open>The constructor \<^verbatim>\<open>datetime(year, month, day, hour, minute, second, microsecond, tzinfo)\<close>
  with its range checks, in the order the library makes them.\<close>

definition datetime_new ::
    "int \<Rightarrow> int \<Rightarrow> int \<Rightarrow> int \<Rightarrow> int \<Rightarrow> int \<Rightarrow> int \<Rightarrow> tz option \<Rightarrow> int \<Rightarrow> py_exc + datetime" where
  "datetime_new y m d hh mm ss us tzi fld =
     (if y < MINYEAR \<or> y > MAXYEAR
        then Inl (Exc ValueError (''year '' @ str_int y @ '' is out of range''))
      else if m < 1 \<or> m > 12 then Inl (Exc ValueError ''month must be in 1..12'')
      else if d < 1 \<or> d > days_in_month y m
        then Inl (Exc ValueError ''day is out of range for month'')
      else if hh < 0 \<or> hh > 23 then Inl (Exc ValueError ''hour must be in 0..23'')
      else if mm < 0 \<or> mm > 59 then Inl (Exc ValueError ''minute must be in 0..59'')
      else if ss < 0 \<or> ss > 59 then Inl (Exc ValueError ''second must be in 0..59'')
      else if us < 0 \<or> us > 999999
        then Inl (Exc ValueError ''microsecond must be in 0..999999'')
      else Inr \<lparr> dt_year = y, dt_month = m, dt_day = d, dt_hour = hh, dt_minute = mm,
                 dt_second = ss, dt_microsecond = us, dt_tzinfo = tzi, dt_fold = fld \<rparr>)"

definition toordinal :: "datetime \<Rightarrow> int" where
  "toordinal dt = ymd2ord (dt_year dt) (dt_month dt) (dt_day dt)"

definition day_seconds :: "datetime \<Rightarrow> int" where
  "day_seconds dt = dt_hour dt * 3600 + dt_minute dt * 60 + dt_second dt"

text \<open>\<^verbatim>\<open>dt.utcoffset()\<close>: \<^verbatim>\<open>None\<close> for a naive value.\<close>

definition utcoffset :: "datetime \<Rightarrow> timedelta option" where
  "utcoffset dt = map_option (\<lambda>z. td_of_us (tz_offset z)) (dt_tzinfo dt)"

text \<open>\<^verbatim>\<open>dt + delta\<close>: the fields are renormalised through the day number; a result outside
  the years 1..9999 raises \<^verbatim>\<open>OverflowError\<close>.\<close>

definition datetime_add :: "datetime \<Rightarrow> timedelta \<Rightarrow> py_exc + datetime" where
  "datetime_add dt delta =
     (let us = dt_microsecond dt + td_microseconds delta;
          secs = day_seconds dt + td_seconds delta + us div 1000000;
          days = toordinal dt + td_days delta + secs div 86400;
          us = us mod 1000000;
          secs = secs mod 86400
      in if 0 < days \<and> days \<le> MAXORDINAL
         then (case ord2ymd days of (y, m, d) \<Rightarrow>
                 Inr \<lparr> dt_year = y, dt_month = m, dt_day = d,
                       dt_hour = secs div 3600, dt_minute = (secs mod 3600) div 60,
                       dt_second = secs mod 60, dt_microsecond = us,
                       dt_tzinfo = dt_tzinfo dt, dt_fold = 0 \<rparr>)
         else Inl (Exc OverflowError ''date value out of range''))"

text \<open>\<^verbatim>\<open>self - other\<close> on two datetimes.\<close>

definition datetime_sub :: "datetime \<Rightarrow> datetime \<Rightarrow> py_exc + timedelta" where
  "datetime_sub self other =
     (let base = ((toordinal self - toordinal other) * 86400
                   + (day_seconds self - day_seconds other)) * 1000000
                 + (dt_microsecond self - dt_microsecond other)
      in case (dt_tzinfo self, dt_tzinfo other) of
           (None, None) \<Rightarrow> td_checked base
         | (Some a, Some b) \<Rightarrow> td_checked (base + tz_offset b - tz_offset a)
         | _ \<Rightarrow> Inl (Exc TypeError
                  (''can'' @ [CHR 0x27] @ ''t subtract offset-naive and offset-aware datetimes'')))"

text \<open>
  The rich comparison of two datetimes: with equal offsets (or both naive) the fields are
  compared, with different offsets the sign of the difference is; \<open>None\<close> is the mixed
  case. The result is negative, zero or positive.
\<close>

definition fields_cmp :: "datetime \<Rightarrow> datetime \<Rightarrow> int" where
  "fields_cmp a b =
     (let x = [dt_year a, dt_month a, dt_day a, dt_hour a, dt_minute a, dt_second a,
               dt_microsecond a];
          y = [dt_year b, dt_month b, dt_day b, dt_hour b, dt_minute b, dt_second b,
               dt_microsecond b]
      in if x = y then 0 else if x < y then - 1 else 1)"

definition datetime_cmp :: "datetime \<Rightarrow> datetime \<Rightarrow> int option" where
  "datetime_cmp a b =
     (case (dt_tzinfo a, dt_tzinfo b) of
        (None, None) \<Rightarrow> Some (fields_cmp a b)
      | (Some za, Some zb) \<Rightarrow>
          if tz_offset za = tz_offset zb then Some (fields_cmp a b)
          else (case datetime_sub a b of
                  Inl e \<Rightarrow> None
                | Inr delta \<Rightarrow>
                    Some (if td_days delta \<noteq> 0 then td_days delta
                          else if td_seconds delta \<noteq> 0 \<or> td_microseconds delta \<noteq> 0 then 1
                          else 0))
      | _ \<Rightarrow> None)"

definition mixed_compare :: py_exc where
  "mixed_compare =
     Exc TypeError (''can'' @ [CHR 0x27] @ ''t compare offset-naive and offset-aware datetimes'')"

definition datetime_lt :: "datetime \<Rightarrow> datetime \<Rightarrow> py_exc + bool" where
  "datetime_lt a b = (case datetime_cmp a b of None \<Rightarrow> Inl mixed_compare | Some c \<Rightarrow> Inr (c < 0))"

definition datetime_gt :: "datetime \<Rightarrow> datetime \<Rightarrow> py_exc + bool" where
  "datetime_gt a b = (case datetime_cmp a b of None \<Rightarrow> Inl mixed_compare | Some c \<Rightarrow> Inr (c > 0))"

definition datetime_eq :: "datetime \<Rightarrow> datetime \<Rightarrow> bool" where
  "datetime_eq a b = (case datetime_cmp a b of None \<Rightarrow> False | Some c \<Rightarrow> c = 0)"

subsection \<open>Rendering\<close>

text \<open>The UTC offset as \<^verbatim>\<open>isoformat\<close> (separator \<open>:\<close>) and \<^verbatim>\<open>%z\<close> (no separator) print it.\<close>

definition format_utcoffset :: "string \<Rightarrow> int \<Rightarrow> string" where
  "format_utcoffset sep off =
     (let sign = (if off < 0 then CHR ''-'' else CHR ''+'');
          a = \<bar>off\<bar>;
          us = a mod 1000000;
          s = a div 1000000;
          hh = s div 3600; mm = (s mod 3600) div 60; ss = s mod 60
      in [sign] @ zpad 2 hh @ sep @ zpad 2 mm
         @ (if ss \<noteq> 0 \<or> us \<noteq> 0 then sep @ zpad 2 ss else [])
         @ (if us \<noteq> 0 then ''.'' @ zpad 6 us else []))"

definition isoformat :: "datetime \<Rightarrow> string" where
  "isoformat dt =
     zpad 4 (dt_year dt) @ ''-'' @ zpad 2 (dt_month dt) @ ''-'' @ zpad 2 (dt_day dt) @ ''T''
     @ zpad 2 (dt_hour dt) @ '':'' @ zpad 2 (dt_minute dt) @ '':'' @ zpad 2 (dt_second dt)
     @ (if dt_microsecond dt \<noteq> 0 then ''.'' @ zpad 6 (dt_microsecond dt) else [])
     @ (case dt_tzinfo dt of None \<Rightarrow> [] | Some z \<Rightarrow> format_utcoffset '':'' (tz_offset z))"

definition DAY_NAMES :: "string list" where
  "DAY_NAMES = [''Monday'', ''Tuesday'', ''Wednesday'', ''Thursday'', ''Friday'', ''Saturday'',
                ''Sunday'']"

definition MONTH_NAMES :: "string list" where
  "MONTH_NAMES = [[], ''January'', ''February'', ''March'', ''April'', ''May'', ''June'', ''July'',
                  ''August'', ''September'', ''October'', ''November'', ''December'']"

text \<open>\<^verbatim>\<open>dt.weekday()\<close>: Monday is 0.\<close>

definition weekday :: "datetime \<Rightarrow> int" where
  "weekday dt = (toordinal dt + 6) mod 7"

text \<open>
  \<^verbatim>\<open>dt.strftime(format)\<close> in the C locale, for the directives the server's own format
  literals use together with \<^verbatim>\<open>%f\<close> and \<^verbatim>\<open>%%\<close>. The library expands \<^verbatim>\<open>%z\<close>, \<^verbatim>\<open>%Z\<close> and \<^verbatim>\<open>%f\<close>
  and passes the rest to the C library's \<^verbatim>\<open>strftime\<close>, which prints the year as a plain
  decimal number, without padding (\<^verbatim>\<open>999-06-15\<close>), and pads the other numbers to two
  digits. Any other directive, and a \<^verbatim>\<open>%\<close> that ends the format, is copied as it is.
\<close>

definition strftime_directive :: "datetime \<Rightarrow> char \<Rightarrow> string" where
  "strftime_directive dt c =
     (if c = CHR ''Y'' then str_int (dt_year dt)
      else if c = CHR ''m'' then zpad 2 (dt_month dt)
      else if c = CHR ''d'' then zpad 2 (dt_day dt)
      else if c = CHR ''H'' then zpad 2 (dt_hour dt)
      else if c = CHR ''M'' then zpad 2 (dt_minute dt)
      else if c = CHR ''S'' then zpad 2 (dt_second dt)
      else if c = CHR ''f'' then zpad 6 (dt_microsecond dt)
      else if c = CHR ''I'' then zpad 2 ((dt_hour dt + 11) mod 12 + 1)
      else if c = CHR ''p'' then (if dt_hour dt < 12 then ''AM'' else ''PM'')
      else if c = CHR ''A'' then DAY_NAMES ! nat (weekday dt)
      else if c = CHR ''B'' then MONTH_NAMES ! nat (dt_month dt)
      else if c = CHR ''z'' then
        (case dt_tzinfo dt of None \<Rightarrow> [] | Some z \<Rightarrow> format_utcoffset [] (tz_offset z))
      else if c = CHR ''Z'' then (case dt_tzinfo dt of None \<Rightarrow> [] | Some z \<Rightarrow> tz_name z)
      else if c = CHR ''%'' then ''%''
      else [CHR ''%'', c])"

fun strftime :: "datetime \<Rightarrow> string \<Rightarrow> string" where
  "strftime dt [] = []"
| "strftime dt [c] = [c]"
| "strftime dt (c # d # cs) =
     (if c = CHR ''%'' then strftime_directive dt d @ strftime dt cs
      else c # strftime dt (d # cs))"

section \<open>The environment: clock, zones, the C library\<close>

text \<open>
  What the server reads from its host is a parameter of the model:
  \<^item> \<open>tz_keys\<close>: the keys of the system's timezone database, which
    \<^verbatim>\<open>available_timezones()\<close> returns as a set;
  \<^item> \<open>tz_load\<close>: \<^verbatim>\<open>ZoneInfo(key)\<close>, a zone or the exception the constructor raises;
  \<^item> \<open>local_zone\<close>: the host's local zone, which the C library's \<^verbatim>\<open>localtime\<close> applies;
  \<^item> \<open>clock\<close>: the successive readings of the system clock, in microseconds since the
    epoch;
  \<^item> \<open>strptime_other\<close>: the library's parser on the formats that the model of
    \<^verbatim>\<open>_strptime\<close> below does not cover; it returns the fields year, month, day, hour,
    minute, second, fraction, and the offset \<^verbatim>\<open>gmtoff\<close> with its fraction, which only
    a format with \<^verbatim>\<open>%z\<close> uses.
  A zone maps an instant (seconds since the epoch) to the UTC offset in seconds and the
  abbreviation in force at it.
\<close>

type_synonym zone = "int \<Rightarrow> int \<times> string"

type_synonym parsed = "int \<times> int \<times> int \<times> int \<times> int \<times> int \<times> int \<times> int \<times> int"

record env =
  tz_keys :: "string list"
  tz_load :: "string \<Rightarrow> py_exc + zone"
  local_zone :: zone
  clock :: "nat \<Rightarrow> int"
  strptime_other :: "string \<Rightarrow> string \<Rightarrow> py_exc + parsed"

definition available_timezones :: "env \<Rightarrow> string set" where
  "available_timezones E = set (tz_keys E)"

definition ZoneInfo :: "env \<Rightarrow> string \<Rightarrow> py_exc + zone" where
  "ZoneInfo E key = tz_load E key"

text \<open>\<^verbatim>\<open>sorted(list(available_timezones()))\<close>.\<close>

definition sorted_timezones :: "env \<Rightarrow> string list" where
  "sorted_timezones E = sorted_list_of_set (available_timezones E)"

text \<open>The day number of 1970-01-01 and the epoch in seconds since day 0.\<close>

definition EPOCH_ORDINAL :: int where "EPOCH_ORDINAL = 719163"
definition epoch :: int where "epoch = 719163 * 24 * 60 * 60"
definition max_fold_seconds :: int where "max_fold_seconds = 24 * 3600"

text \<open>Arithmetic in a C \<^verbatim>\<open>int\<close> of 32 bits wraps around.\<close>

definition c_int :: "int \<Rightarrow> int" where
  "c_int x = (x + 2 ^ 31) mod 2 ^ 32 - 2 ^ 31"

text \<open>The broken-down time of a number of seconds since the epoch, as \<^verbatim>\<open>gmtime\<close> computes it;
  it fails when the year, counted from 1900, does not fit the \<^verbatim>\<open>int\<close> field \<^verbatim>\<open>tm_year\<close>.
  The result is (year, month, day, hour, minute, second) as the library reads them off
  the fields: the year is \<^verbatim>\<open>tm_year + 1900\<close>, computed in a C \<^verbatim>\<open>int\<close>.\<close>

definition broken_down :: "int \<Rightarrow> py_exc + (int \<times> int \<times> int \<times> int \<times> int \<times> int)" where
  "broken_down t =
     (case ord2ymd (t div 86400 + EPOCH_ORDINAL) of (y, m, d) \<Rightarrow>
        let r = t mod 86400; tm_year = y - 1900 in
        if tm_year < - (2 ^ 31) \<or> 2 ^ 31 \<le> tm_year
        then Inl (Exc OSError ''[Errno 75] Value too large for defined data type'')
        else Inr (c_int (tm_year + 1900), m, d, r div 3600, (r mod 3600) div 60, r mod 60))"

definition c_gmtime :: "int \<Rightarrow> py_exc + (int \<times> int \<times> int \<times> int \<times> int \<times> int)" where
  "c_gmtime t = broken_down t"

definition c_localtime :: "env \<Rightarrow> int \<Rightarrow> py_exc + (int \<times> int \<times> int \<times> int \<times> int \<times> int)" where
  "c_localtime E t = broken_down (t + fst (local_zone E t))"

text \<open>The conversion of a Python integer to the platform's 64-bit \<^verbatim>\<open>time_t\<close>.\<close>

definition as_time_t :: "int \<Rightarrow> py_exc + int" where
  "as_time_t t =
     (if - (2 ^ 63) \<le> t \<and> t < 2 ^ 63 then Inr t
      else Inl (Exc OverflowError ''timestamp out of range for platform time_t''))"

definition utc_to_seconds :: "int \<Rightarrow> int \<Rightarrow> int \<Rightarrow> int \<Rightarrow> int \<Rightarrow> int \<Rightarrow> py_exc + int" where
  "utc_to_seconds y m d hh mm ss =
     (if y < MINYEAR \<or> y > MAXYEAR
      then Inl (Exc ValueError (''year '' @ str_int y @ '' is out of range''))
      else Inr (((ymd2ord y m d * 24 + hh) * 60 + mm) * 60 + ss))"

text \<open>\<^verbatim>\<open>local(u)\<close>: the local wall-clock reading, in seconds since day 0, of the instant
  \<open>u\<close> seconds after day 0 in UTC.\<close>

definition local_secs :: "env \<Rightarrow> int \<Rightarrow> py_exc + int" where
  "local_secs E u =
     bnd (as_time_t (u - epoch)) (\<lambda>t.
     bnd (c_localtime E t) (\<lambda>(y, m, d, hh, mm, ss).
     utc_to_seconds y m d hh mm ss))"

text \<open>\<^verbatim>\<open>local_to_seconds\<close>: solve \<open>local u = t\<close> for \<open>u\<close>, choosing by the fold where two
  instants have the same wall-clock reading.\<close>

definition local_to_seconds ::
    "env \<Rightarrow> int \<Rightarrow> int \<Rightarrow> int \<Rightarrow> int \<Rightarrow> int \<Rightarrow> int \<Rightarrow> int \<Rightarrow> py_exc + int" where
  "local_to_seconds E y m d hh mm ss fld =
     bnd (utc_to_seconds y m d hh mm ss) (\<lambda>t.
     bnd (local_secs E t) (\<lambda>lt.
     let a = lt - t; u1 = t - a in
     bnd (local_secs E u1) (\<lambda>t1.
     let second_probe = (\<lambda>b.
           let u2 = t - b in
           bnd (local_secs E u2) (\<lambda>t2.
           if t2 = t then Inr u2
           else if t1 = t then Inr u1
           else Inr (if fld \<noteq> 0 then min u1 u2 else max u1 u2)))
     in if t1 = t
        then
          let u2 = (if fld \<noteq> 0 then u1 + max_fold_seconds else u1 - max_fold_seconds) in
          bnd (local_secs E u2) (\<lambda>lt2.
          let b = lt2 - u2 in
          if a = b then Inr u1 else second_probe b)
        else second_probe (t1 - u1))))"

text \<open>\<^verbatim>\<open>dt.timestamp()\<close>, a float. A naive value is read as local time:
  \<^verbatim>\<open>seconds - EPOCH_SECONDS + microsecond / 1e6\<close>, a division and an addition of doubles. An
  aware value gives \<^verbatim>\<open>(dt - EPOCH).total_seconds()\<close>.\<close>

definition timestamp :: "env \<Rightarrow> datetime \<Rightarrow> py_exc + rat" where
  "timestamp E dt =
     (case dt_tzinfo dt of
        None \<Rightarrow>
          bnd (local_to_seconds E (dt_year dt) (dt_month dt) (dt_day dt) (dt_hour dt)
                 (dt_minute dt) (dt_second dt) (dt_fold dt)) (\<lambda>seconds.
          Inr (float_add (float_of_int (seconds - epoch))
                 (float_div (float_of_int (dt_microsecond dt)) 1000000)))
      | Some z \<Rightarrow>
          Inr (int_truediv (((toordinal dt - EPOCH_ORDINAL) * 86400 + day_seconds dt) * 1000000
                             + dt_microsecond dt - tz_offset z) 1000000))"

text \<open>\<^verbatim>\<open>int(x)\<close> on a float: truncation towards zero.\<close>

definition py_int :: "rat \<Rightarrow> int" where
  "py_int x = (if x < 0 then - \<lfloor>- x\<rfloor> else \<lfloor>x\<rfloor>)"

text \<open>\<^verbatim>\<open>datetime_from_timet_and_us\<close>: the fields of an instant, in local time with the fold
  detected by two probes, or in UTC.\<close>

definition datetime_from_timet_and_us ::
    "env \<Rightarrow> bool \<Rightarrow> int \<Rightarrow> int \<Rightarrow> py_exc + datetime" where
  "datetime_from_timet_and_us E use_local timet us =
     bnd (if use_local then c_localtime E timet else c_gmtime timet) (\<lambda>(y, m, d, hh, mm, ss).
     let ss = min 59 ss in
     bnd (if use_local
          then
            bnd (utc_to_seconds y m d hh mm ss) (\<lambda>result_seconds.
            bnd (local_secs E (epoch + timet - max_fold_seconds)) (\<lambda>probe_seconds.
            let transition = result_seconds - probe_seconds - max_fold_seconds in
            if transition < 0
            then bnd (local_secs E (epoch + timet + transition)) (\<lambda>probe_seconds.
                 Inr (if probe_seconds = result_seconds then 1 else 0))
            else Inr 0))
          else Inr 0) (\<lambda>fld.
     datetime_new y m d hh mm ss us None fld))"

text \<open>\<^verbatim>\<open>ZoneInfo.fromutc\<close>: the UTC fields shifted by the offset in force at that instant.\<close>

definition fromutc :: "zone \<Rightarrow> datetime \<Rightarrow> py_exc + datetime" where
  "fromutc z dt =
     (let ts = (toordinal dt - EPOCH_ORDINAL) * 86400 + day_seconds dt;
          off = fst (z ts); name = snd (z ts)
      in bnd (datetime_add dt (td_of_us (off * 1000000))) (\<lambda>r.
         Inr (r \<lparr> dt_tzinfo := Some \<lparr> tz_offset = off * 1000000, tz_name = name \<rparr> \<rparr>)))"

text \<open>\<^verbatim>\<open>datetime.fromtimestamp(timestamp, tz)\<close> on an integer timestamp.\<close>

definition fromtimestamp :: "env \<Rightarrow> int \<Rightarrow> zone option \<Rightarrow> py_exc + datetime" where
  "fromtimestamp E ts tzi =
     bnd (as_time_t ts) (\<lambda>timet.
     case tzi of
       None \<Rightarrow> datetime_from_timet_and_us E True timet 0
     | Some z \<Rightarrow> bnd (datetime_from_timet_and_us E False timet 0) (fromutc z))"

text \<open>\<^verbatim>\<open>datetime.now(tz)\<close> at the \<open>k\<close>-th reading of the clock.\<close>

definition now :: "env \<Rightarrow> nat \<Rightarrow> zone option \<Rightarrow> py_exc + datetime" where
  "now E k tzi =
     (let secs = clock E k div 1000000; us = clock E k mod 1000000 in
      bnd (as_time_t secs) (\<lambda>timet.
      case tzi of
        None \<Rightarrow> datetime_from_timet_and_us E True timet us
      | Some z \<Rightarrow> bnd (datetime_from_timet_and_us E False timet us) (fromutc z)))"

section \<open>\<^verbatim>\<open>datetime.strptime\<close>\<close>

text \<open>
  \<^verbatim>\<open>strptime\<close> turns the format into a regular expression, matches it (ignoring case)
  against the start of the data, reads the fields off the groups and calls the
  \<^verbatim>\<open>datetime\<close> constructor on them. The format is scanned as the library scans it: a
  run of whitespace stands for \<^verbatim>\<open>\s+\<close>, a \<^verbatim>\<open>%\<close> takes the next character as a directive, any
  other character stands for itself.

  The matcher is modelled for the directives \<^verbatim>\<open>%Y %m %d %H %M %S %f %%\<close>, each of the first
  seven at most once in a format. A format with another of the library's directives, or
  with one of these twice, goes to the parameter \<open>strptime_other\<close> of the environment.
\<close>

datatype fmt_item = Lit char | Spaces | Dir char

datatype fmt_error = Stray | Bad char

definition KNOWN_DIRECTIVES :: "char set" where
  "KNOWN_DIRECTIVES = set ''aAbBcdfGHIjmMpSuUVwWxXyYzZ%''"

definition REGEX_CHARS :: "char set" where
  "REGEX_CHARS = set ''.^$*+?(){}[]|'' \<union> {CHR 0x5C}"

definition cons_item :: "fmt_item \<Rightarrow> fmt_error + fmt_item list \<Rightarrow> fmt_error + fmt_item list" where
  "cons_item i r = (case r of Inl e \<Rightarrow> Inl e | Inr its \<Rightarrow> Inr (i # its))"

text \<open>The flag says that the item before was whitespace, so that a run gives one item.\<close>

fun tokenize :: "bool \<Rightarrow> string \<Rightarrow> fmt_error + fmt_item list" where
  "tokenize ps [] = Inr []"
| "tokenize ps [c] =
     (if c = CHR ''%'' then Inl Stray
      else if is_space c then Inr (if ps then [] else [Spaces])
      else Inr [Lit c])"
| "tokenize ps (c # d # cs) =
     (if c = CHR ''%'' then
        (if d \<in> KNOWN_DIRECTIVES
         then cons_item (if d = CHR ''%'' then Lit d else Dir d) (tokenize False cs)
         else Inl (Bad (if d \<in> REGEX_CHARS \<or> is_space d then CHR ''%'' else d)))
      else if is_space c then
        (if ps then tokenize True (d # cs) else cons_item Spaces (tokenize True (d # cs)))
      else cons_item (Lit c) (tokenize False (d # cs)))"

definition fmt_error_exc :: "string \<Rightarrow> fmt_error \<Rightarrow> py_exc" where
  "fmt_error_exc format e =
     (case e of
        Stray \<Rightarrow> Exc ValueError (''stray % in format '' @ [CHR 0x27] @ format @ [CHR 0x27])
      | Bad c \<Rightarrow> Exc ValueError ([CHR 0x27, c, CHR 0x27] @ '' is a bad directive in format ''
                    @ [CHR 0x27] @ format @ [CHR 0x27]))"

fun directives :: "fmt_item list \<Rightarrow> char list" where
  "directives [] = []"
| "directives (Dir c # its) = c # directives its"
| "directives (i # its) = directives its"

definition modelled :: "fmt_item list \<Rightarrow> bool" where
  "modelled its = (set (directives its) \<subseteq> set ''YmdHMSf'' \<and> distinct (directives its))"

subsection \<open>The regular expressions of the directives\<close>

definition in_range :: "char \<Rightarrow> char \<Rightarrow> char \<Rightarrow> bool" where
  "in_range a b c = ((of_char a :: int) \<le> of_char c \<and> (of_char c :: int) \<le> of_char b)"

text \<open>The alternatives of a directive's group, in the order the expression lists them; an
  alternative is a sequence of character classes.\<close>

definition dir_alts :: "char \<Rightarrow> (char \<Rightarrow> bool) list list" where
  "dir_alts c =
     (let dg = is_digit; r = in_range in
      if c = CHR ''d'' then
        [[r CHR ''3'' CHR ''3'', r CHR ''0'' CHR ''1''], [r CHR ''1'' CHR ''2'', dg],
         [r CHR ''0'' CHR ''0'', r CHR ''1'' CHR ''9''], [r CHR ''1'' CHR ''9''],
         [r CHR '' '' CHR '' '', r CHR ''1'' CHR ''9'']]
      else if c = CHR ''m'' then
        [[r CHR ''1'' CHR ''1'', r CHR ''0'' CHR ''2''],
         [r CHR ''0'' CHR ''0'', r CHR ''1'' CHR ''9''], [r CHR ''1'' CHR ''9'']]
      else if c = CHR ''H'' then
        [[r CHR ''2'' CHR ''2'', r CHR ''0'' CHR ''3''], [r CHR ''0'' CHR ''1'', dg], [dg]]
      else if c = CHR ''M'' then [[r CHR ''0'' CHR ''5'', dg], [dg]]
      else if c = CHR ''S'' then
        [[r CHR ''6'' CHR ''6'', r CHR ''0'' CHR ''1''], [r CHR ''0'' CHR ''5'', dg], [dg]]
      else if c = CHR ''Y'' then [[dg, dg, dg, dg]]
      else if c = CHR ''f'' then
        map (\<lambda>k. replicate k (r CHR ''0'' CHR ''9'')) [6, 5, 4, 3, 2, 1]
      else [])"

fun match_classes :: "(char \<Rightarrow> bool) list \<Rightarrow> string \<Rightarrow> bool" where
  "match_classes [] s = True"
| "match_classes (p # ps) [] = False"
| "match_classes (p # ps) (x # xs) = (p x \<and> match_classes ps xs)"

text \<open>The ways one item matches at the start of the data, best first: the text matched and
  the data left.\<close>

definition item_alts :: "fmt_item \<Rightarrow> string \<Rightarrow> (string \<times> string) list" where
  "item_alts i s =
     (case i of
        Lit c \<Rightarrow>
          (case s of [] \<Rightarrow> []
           | x # xs \<Rightarrow> if py_lower_char x = py_lower_char c then [([x], xs)] else [])
      | Spaces \<Rightarrow>
          map (\<lambda>k. (take k s, drop k s)) (rev [1 ..< Suc (length (takeWhile is_space s))])
      | Dir c \<Rightarrow>
          map (\<lambda>alt. (take (length alt) s, drop (length alt) s))
            (filter (\<lambda>alt. match_classes alt s) (dir_alts c)))"

text \<open>All matches of the whole expression at the start of the data, in the order in which
  backtracking finds them: the groups that matched and the data left.\<close>

fun match_items :: "fmt_item list \<Rightarrow> string \<Rightarrow> ((char \<times> string) list \<times> string) list" where
  "match_items [] s = [([], s)]"
| "match_items (i # its) s =
     concat (map (\<lambda>(m, r).
       map (\<lambda>(gs, r'). ((case i of Dir c \<Rightarrow> [(c, m)] | _ \<Rightarrow> []) @ gs, r')) (match_items its r))
       (item_alts i s))"

text \<open>\<^verbatim>\<open>int(s)\<close> of a group: digits, after the blank that the last alternative of \<^verbatim>\<open>%d\<close>
  admits.\<close>

definition group_int :: "string \<Rightarrow> int" where
  "group_int s = int_of_digits (dropWhile is_space s)"

text \<open>The check of the \<^verbatim>\<open>date\<close> constructor.\<close>

definition check_date :: "int \<Rightarrow> int \<Rightarrow> int \<Rightarrow> py_exc + unit" where
  "check_date y m d =
     (if y < MINYEAR \<or> y > MAXYEAR
        then Inl (Exc ValueError (''year '' @ str_int y @ '' is out of range''))
      else if m < 1 \<or> m > 12 then Inl (Exc ValueError ''month must be in 1..12'')
      else if d < 1 \<or> d > days_in_month y m
        then Inl (Exc ValueError ''day is out of range for month'')
      else Inr ())"

text \<open>\<^verbatim>\<open>_strptime\<close> on a modelled format: match, then the fields with their defaults
  (1900-01-01 00:00:00), then the check of the date that the computation of the day of the
  year makes. A 29 February without a year is checked in 1904 and returned in 1900.\<close>

definition strptime_fields :: "string \<Rightarrow> string \<Rightarrow> fmt_item list \<Rightarrow> py_exc + parsed" where
  "strptime_fields data_string format its =
     (case match_items its data_string of
        [] \<Rightarrow> Inl (Exc ValueError (''time data '' @ py_repr data_string
                 @ '' does not match format '' @ py_repr format))
      | (gs, rest) # _ \<Rightarrow>
          if rest \<noteq> [] then Inl (Exc ValueError (''unconverted data remains: '' @ rest))
          else
            let get = (\<lambda>c dflt. case map_of gs c of None \<Rightarrow> dflt | Some s \<Rightarrow> group_int s);
                month = get CHR ''m'' 1;
                day = get CHR ''d'' 1;
                hour = get CHR ''H'' 0;
                minute = get CHR ''M'' 0;
                second = get CHR ''S'' 0;
                fraction = (case map_of gs CHR ''f'' of None \<Rightarrow> 0
                            | Some s \<Rightarrow> int_of_digits (s @ replicate (6 - length s) CHR ''0''));
                leap_year_fix = (map_of gs CHR ''Y'' = None \<and> month = 2 \<and> day = 29);
                year = (case map_of gs CHR ''Y'' of
                          None \<Rightarrow> if leap_year_fix then 1904 else 1900
                        | Some s \<Rightarrow> group_int s)
            in bnd (check_date year month day) (\<lambda>_.
               Inr (if leap_year_fix then 1900 else year, month, day, hour, minute, second,
                    fraction, 0, 0)))"

text \<open>\<^verbatim>\<open>repr\<close> of a \<^verbatim>\<open>timedelta\<close>, for the message of the \<^verbatim>\<open>timezone\<close> constructor.\<close>

definition td_repr :: "timedelta \<Rightarrow> string" where
  "td_repr td =
     (let args = (if td_days td \<noteq> 0 then [''days='' @ str_int (td_days td)] else [])
               @ (if td_seconds td \<noteq> 0 then [''seconds='' @ str_int (td_seconds td)] else [])
               @ (if td_microseconds td \<noteq> 0
                  then [''microseconds='' @ str_int (td_microseconds td)] else []);
          args = (if args = [] then [''0''] else args)
      in ''datetime.timedelta('' @ concat (hd args # map (\<lambda>a. '', '' @ a) (tl args)) @ '')'')"

text \<open>\<^verbatim>\<open>timezone(timedelta(seconds=gmtoff, microseconds=gmtoff_fraction))\<close>: the offset must lie
  strictly between minus and plus 24 hours. The name of the zone of a parsed value is
  never printed by the server and is left empty.\<close>

definition timezone_new :: "int \<Rightarrow> int \<Rightarrow> py_exc + tz" where
  "timezone_new gmtoff gmtoff_fraction =
     (let off = gmtoff * 1000000 + gmtoff_fraction in
      if - US_PER_DAY < off \<and> off < US_PER_DAY
      then Inr \<lparr> tz_offset = off, tz_name = [] \<rparr>
      else Inl (Exc ValueError
        (''offset must be a timedelta strictly between -timedelta(hours=24) and ''
         @ ''timedelta(hours=24), not '' @ td_repr (td_of_us off) @ ''.'')))"

definition strptime :: "env \<Rightarrow> string \<Rightarrow> string \<Rightarrow> py_exc + datetime" where
  "strptime E data_string format =
     (case tokenize False format of
        Inl e \<Rightarrow> Inl (fmt_error_exc format e)
      | Inr its \<Rightarrow>
          bnd (if modelled its then strptime_fields data_string format its
               else strptime_other E data_string format)
            (\<lambda>(y, m, d, hh, mm, ss, fraction, gmtoff, gmtoff_fraction).
          bnd (if CHR ''z'' \<in> set (directives its)
               then bnd (timezone_new gmtoff gmtoff_fraction) (\<lambda>z. Inr (Some z))
               else Inr None) (\<lambda>tzi.
          datetime_new y m d hh mm ss fraction tzi 0)))"

section \<open>The eight operations of \<^verbatim>\<open>server.py\<close>\<close>

definition DEFAULT_FORMAT :: string where
  "DEFAULT_FORMAT = ''%Y-%m-%d %H:%M:%S''"

definition LONG_FORMAT :: string where
  "LONG_FORMAT = ''%A, %B %d, %Y at %I:%M:%S %p''"

text \<open>The handler \<^verbatim>\<open>except Exception as e: return {"error": str(e)}\<close>.\<close>

definition except_Exception :: "exc_class list \<times> (py_exc \<Rightarrow> payload)" where
  "except_Exception = ([Exception], \<lambda>e. [(''error'', VStr (exc_str e))])"

text \<open>\<^verbatim>\<open>int(x.timestamp())\<close>.\<close>

definition int_timestamp :: "env \<Rightarrow> datetime \<Rightarrow> py_exc + int" where
  "int_timestamp E dt = bnd (timestamp E dt) (\<lambda>x. Inr (py_int x))"

definition get_current_time :: "env \<Rightarrow> string option \<Rightarrow> py_exc + payload" where
  "get_current_time E tz =
     try_except
       (let result = (\<lambda>now tz_info.
              bnd (int_timestamp E now) (\<lambda>unix_timestamp.
              Inr [(''datetime'', VStr (isoformat now)),
                   (''date'', VStr (strftime now ''%Y-%m-%d'')),
                   (''time'', VStr (strftime now ''%H:%M:%S'')),
                   (''time_12h'', VStr (strftime now ''%I:%M:%S %p'')),
                   (''timezone'', VStr tz_info),
                   (''timezone_offset'', VStr (strftime now ''%z'')),
                   (''day_of_week'', VStr (strftime now ''%A'')),
                   (''unix_timestamp'', VInt unix_timestamp),
                   (''formatted'', VStr (strftime now LONG_FORMAT))]));
            local_branch = bnd (now E 0 None) (\<lambda>now. result now ''local'')
        in case tz of
             None \<Rightarrow> local_branch
           | Some t \<Rightarrow>
               if t \<noteq> [] then
                 (if t \<notin> available_timezones E
                  then Inr [(''error'', VStr (''Invalid timezone: '' @ t)),
                            (''available_timezones_sample'',
                               VList (map VStr (take 10 (sorted_timezones E))))]
                  else bnd (ZoneInfo E t) (\<lambda>z.
                       bnd (now E 0 (Some z)) (\<lambda>now. result now t)))
               else local_branch)
       [except_Exception]"

definition get_timezone_info :: "env \<Rightarrow> string \<Rightarrow> py_exc + payload" where
  "get_timezone_info E tz =
     try_except
       (if tz \<notin> available_timezones E
        then Inr [(''error'', VStr (''Invalid timezone: '' @ tz)),
                  (''hint'', VStr ''Use list_timezones to see available options'')]
        else bnd (ZoneInfo E tz) (\<lambda>zone.
             bnd (now E 0 (Some zone)) (\<lambda>now.
             Inr [(''timezone'', VStr tz),
                  (''current_time'', VStr (isoformat now)),
                  (''offset'', VStr (strftime now ''%z'')),
                  (''offset_hours'',
                     (case utcoffset now of
                        None \<Rightarrow> VInt 0
                      | Some off \<Rightarrow> if td_truthy off
                                    then VFloat (float_div (total_seconds off) 3600)
                                    else VInt 0)),
                  (''abbreviation'', VStr (strftime now ''%Z''))])))
       [except_Exception]"

definition list_timezones :: "env \<Rightarrow> string option \<Rightarrow> py_exc + payload" where
  "list_timezones E filter_text =
     try_except
       (let zones = sorted_timezones E;
            zones = (case filter_text of
                       None \<Rightarrow> zones
                     | Some t \<Rightarrow>
                         if t \<noteq> [] then
                           (let filter_lower = lower t
                            in filter (\<lambda>z. str_in filter_lower (lower z)) zones)
                         else zones)
        in Inr [(''count'', VInt (int (length zones))),
                (''timezones'', VList (map VStr zones))])
       [except_Exception]"

definition parse_datetime :: "env \<Rightarrow> string \<Rightarrow> string \<Rightarrow> py_exc + payload" where
  "parse_datetime E date_string format_string =
     try_except
       (bnd (strptime E date_string format_string) (\<lambda>dt.
        bnd (int_timestamp E dt) (\<lambda>unix_timestamp.
        bnd (now E 0 None) (\<lambda>now0.
        bnd (datetime_lt dt now0) (\<lambda>is_past.
        bnd (now E 1 None) (\<lambda>now1.
        bnd (datetime_gt dt now1) (\<lambda>is_future.
        Inr [(''original'', VStr date_string),
             (''parsed'', VStr (isoformat dt)),
             (''date'', VStr (strftime dt ''%Y-%m-%d'')),
             (''time'', VStr (strftime dt ''%H:%M:%S'')),
             (''day_of_week'', VStr (strftime dt ''%A'')),
             (''unix_timestamp'', VInt unix_timestamp),
             (''is_past'', VBool is_past),
             (''is_future'', VBool is_future)])))))))
       [([ValueError], \<lambda>e.
           [(''error'', VStr (''Failed to parse date: '' @ exc_str e)),
            (''hint'', VStr ''Check that your date_string matches the format_string'')]),
        except_Exception]"

definition compare_times :: "env \<Rightarrow> string \<Rightarrow> string \<Rightarrow> string \<Rightarrow> py_exc + payload" where
  "compare_times E time1 time2 format_string =
     try_except
       (bnd (strptime E time1 format_string) (\<lambda>dt1.
        bnd (strptime E time2 format_string) (\<lambda>dt2.
        bnd (datetime_sub dt2 dt1) (\<lambda>diff.
        bnd (td_abs diff) (\<lambda>abs_diff.
        let days = td_days abs_diff;
            hours = td_seconds abs_diff div 3600;
            remainder = td_seconds abs_diff mod 3600;
            minutes = remainder div 60;
            seconds = remainder mod 60
        in
        bnd (datetime_lt dt1 dt2) (\<lambda>is_before.
        bnd (datetime_gt dt1 dt2) (\<lambda>is_after.
        Inr [(''time1'', VStr (isoformat dt1)),
             (''time2'', VStr (isoformat dt2)),
             (''difference_seconds'', VFloat (total_seconds diff)),
             (''difference_days'', VInt (td_days diff)),
             (''difference_formatted'',
                VDict [(''days'', VInt days), (''hours'', VInt hours),
                       (''minutes'', VInt minutes), (''seconds'', VInt seconds)]),
             (''time1_is_before_time2'', VBool is_before),
             (''time1_is_after_time2'', VBool is_after),
             (''times_are_equal'', VBool (datetime_eq dt1 dt2))])))))))
       [([ValueError], \<lambda>e.
           [(''error'', VStr (''Failed to parse dates: '' @ exc_str e)),
            (''hint'', VStr ''Check that both time strings match the format_string'')]),
        except_Exception]"

definition add_time_delta ::
    "env \<Rightarrow> string \<Rightarrow> int \<Rightarrow> int \<Rightarrow> int \<Rightarrow> int \<Rightarrow> string \<Rightarrow> py_exc + payload" where
  "add_time_delta E base_time days hours minutes seconds format_string =
     try_except
       (bnd (strptime E base_time format_string) (\<lambda>dt.
        bnd (timedelta_new days hours minutes seconds) (\<lambda>delta.
        bnd (datetime_add dt delta) (\<lambda>new_dt.
        bnd (int_timestamp E new_dt) (\<lambda>unix_timestamp.
        Inr [(''original'', VStr (isoformat dt)),
             (''delta_applied'',
                VDict [(''days'', VInt days), (''hours'', VInt hours),
                       (''minutes'', VInt minutes), (''seconds'', VInt seconds)]),
             (''result'', VStr (isoformat new_dt)),
             (''formatted'', VStr (strftime new_dt LONG_FORMAT)),
             (''unix_timestamp'', VInt unix_timestamp)])))))
       [([ValueError], \<lambda>e.
           [(''error'', VStr (''Failed to parse date: '' @ exc_str e)),
            (''hint'', VStr ''Check that your base_time matches the format_string'')]),
        except_Exception]"

definition is_valid_datetime :: "env \<Rightarrow> string \<Rightarrow> string \<Rightarrow> py_exc + payload" where
  "is_valid_datetime E date_string format_string =
     try_except
       (bnd (strptime E date_string format_string) (\<lambda>dt.
        Inr [(''valid'', VBool True),
             (''parsed'', VStr (isoformat dt)),
             (''message'', VStr ''Successfully parsed datetime'')]))
       [([ValueError], \<lambda>e.
           [(''valid'', VBool False),
            (''error'', VStr (exc_str e)),
            (''message'', VStr ''Failed to parse datetime with given format'')]),
        ([Exception], \<lambda>e.
           [(''valid'', VBool False),
            (''error'', VStr (exc_str e))])]"

definition unix_to_datetime :: "env \<Rightarrow> int \<Rightarrow> string option \<Rightarrow> py_exc + payload" where
  "unix_to_datetime E ts tz =
     try_except
       (let result = (\<lambda>dt tz_label.
              Inr [(''unix_timestamp'', VInt ts),
                   (''datetime'', VStr (isoformat dt)),
                   (''date'', VStr (strftime dt ''%Y-%m-%d'')),
                   (''time'', VStr (strftime dt ''%H:%M:%S'')),
                   (''formatted'', VStr (strftime dt LONG_FORMAT)),
                   (''timezone'', VStr tz_label)]);
            local_branch = bnd (fromtimestamp E ts None) (\<lambda>dt. result dt ''local'')
        in case tz of
             None \<Rightarrow> local_branch
           | Some t \<Rightarrow>
               if t \<noteq> [] then
                 (if t \<notin> available_timezones E
                  then Inr [(''error'', VStr (''Invalid timezone: '' @ t)),
                            (''hint'', VStr ''Use list_timezones to see available options'')]
                  else bnd (ZoneInfo E t) (\<lambda>z.
                       bnd (fromtimestamp E ts (Some z)) (\<lambda>dt. result dt t)))
               else local_branch)
       [([ValueError, OSError], \<lambda>e.
           [(''error'', VStr (''Invalid timestamp: '' @ exc_str e)),
            (''hint'', VStr ''Timestamp should be a valid Unix timestamp in seconds'')]),
        except_Exception]"

text \<open>Reading a payload: the value under a key, and whether it is an error payload.\<close>

definition field :: "payload \<Rightarrow> string \<Rightarrow> pyval option" where
  "field p k = map_of p k"

definition is_error :: "payload \<Rightarrow> bool" where
  "is_error p = (field p ''error'' \<noteq> None)"

text \<open>The keys of a payload, in the order of the literal.\<close>

definition keys :: "payload \<Rightarrow> string list" where
  "keys p = map fst p"

text \<open>
  An error payload: the entry \<^verbatim>\<open>error\<close> with a message string, alone or followed by a
  \<^verbatim>\<open>hint\<close> string or by the list \<^verbatim>\<open>available_timezones_sample\<close>.
\<close>

definition error_payload :: "payload \<Rightarrow> bool" where
  "error_payload p =
     (case p of
        [(k, VStr m)] \<Rightarrow> k = ''error''
      | [(k, VStr m), (k', VStr h)] \<Rightarrow> k = ''error'' \<and> k' = ''hint''
      | [(k, VStr m), (k', VList sample)] \<Rightarrow> k = ''error'' \<and> k' = ''available_timezones_sample''
      | _ \<Rightarrow> False)"

text \<open>A structured result of an operation whose success payload has the keys \<open>ks\<close>: a mapping
  that is returned, not raised, and is either a payload with these keys or an error
  payload.\<close>

definition structured :: "string list \<Rightarrow> payload \<Rightarrow> bool" where
  "structured ks p = (keys p = ks \<or> error_payload p)"

definition returns_structured :: "string list \<Rightarrow> py_exc + payload \<Rightarrow> bool" where
  "returns_structured ks r = (case r of Inl e \<Rightarrow> False | Inr p \<Rightarrow> structured ks p)"

text \<open>
  The verdicts of \<^verbatim>\<open>is_valid_datetime\<close>: \<^verbatim>\<open>valid\<close> true with the \<^verbatim>\<open>parsed\<close> string and a
  \<^verbatim>\<open>message\<close>, or \<^verbatim>\<open>valid\<close> false with the \<^verbatim>\<open>error\<close> message string, with or without a
  \<^verbatim>\<open>message\<close>.
\<close>

definition verdict_payload :: "payload \<Rightarrow> bool" where
  "verdict_payload p =
     (case p of
        [(k, VBool v), (k', VStr s), (k'', VStr m)] \<Rightarrow>
          k = ''valid'' \<and> k' = (if v then ''parsed'' else ''error'') \<and> k'' = ''message''
      | [(k, VBool v), (k', VStr s)] \<Rightarrow> k = ''valid'' \<and> v = False \<and> k' = ''error''
      | _ \<Rightarrow> False)"

definition returns_verdict :: "py_exc + payload \<Rightarrow> bool" where
  "returns_verdict r = (case r of Inl e \<Rightarrow> False | Inr p \<Rightarrow> verdict_payload p)"

text \<open>A computation that, if it returns, returns a payload with the property \<open>P\<close>.\<close>

definition ok :: "(payload \<Rightarrow> bool) \<Rightarrow> py_exc + payload \<Rightarrow> bool" where
  "ok P r = (\<forall>v. r = Inr v \<longrightarrow> P v)"

section \<open>Definitions for the statements\<close>

text \<open>A month and a day that exist in the year.\<close>

definition valid_date :: "int \<Rightarrow> int \<Rightarrow> int \<Rightarrow> bool" where
  "valid_date y m d = (1 \<le> m \<and> m \<le> 12 \<and> 1 \<le> d \<and> d \<le> days_in_month y m)"

text \<open>
  A concrete host for the worked examples: the local zone is UTC, the zone database has
  three keys, the clock reads 2025-11-03 17:13:20 UTC. The examples use modelled formats
  only, so the parser parameter is never reached.
\<close>

definition utc_zone :: zone where
  "utc_zone = (\<lambda>t. (0, ''UTC''))"

definition host_utc :: env where
  "host_utc =
     \<lparr> tz_keys = [''UTC'', ''Asia/Tokyo'', ''America/New_York''],
       tz_load = (\<lambda>k. if k = ''Asia/Tokyo'' then Inr (\<lambda>t. (32400, ''JST'')) else Inr utc_zone),
       local_zone = utc_zone,
       clock = (\<lambda>k. 1762190000000000),
       strptime_other = (\<lambda>d f. Inl (Exc Exception ''not modelled'')) \<rparr>"

text \<open>A name contains a text case-insensitively: some run of the name equals the text up to
  the case of its letters.\<close>

definition contains_ignoring_case :: "string \<Rightarrow> string \<Rightarrow> bool" where
  "contains_ignoring_case name t = (\<exists>pre w post. name = pre @ w @ post \<and> lower w = lower t)"


text \<open>The invariant of a \<^verbatim>\<open>datetime\<close> object: every field in its range, the offset of an aware
  value strictly within a day.\<close>

definition valid_datetime :: "datetime \<Rightarrow> bool" where
  "valid_datetime dt =
     (1 \<le> dt_year dt \<and> dt_year dt \<le> 9999
      \<and> valid_date (dt_year dt) (dt_month dt) (dt_day dt)
      \<and> 0 \<le> dt_hour dt \<and> dt_hour dt \<le> 23
      \<and> 0 \<le> dt_minute dt \<and> dt_minute dt \<le> 59
      \<and> 0 \<le> dt_second dt \<and> dt_second dt \<le> 59
      \<and> 0 \<le> dt_microsecond dt \<and> dt_microsecond dt \<le> 999999
      \<and> (case dt_tzinfo dt of None \<Rightarrow> True
          | Some z \<Rightarrow> - US_PER_DAY < tz_offset z \<and> tz_offset z < US_PER_DAY))"

text \<open>The instant of a value on one time line, in microseconds: the wall-clock reading
  counted from day 0, minus the UTC offset of an aware value.\<close>

definition instant_us :: "datetime \<Rightarrow> int" where
  "instant_us dt =
     (toordinal dt * 86400 + day_seconds dt) * 1000000 + dt_microsecond dt
     - (case dt_tzinfo dt of None \<Rightarrow> 0 | Some z \<Rightarrow> tz_offset z)"

text \<open>A format makes aware values: it is well formed and has the directive \<^verbatim>\<open>%z\<close>.\<close>

definition format_aware :: "string \<Rightarrow> bool" where
  "format_aware f = (case tokenize False f of Inl e \<Rightarrow> False | Inr its \<Rightarrow> CHR ''z'' \<in> set (directives its))"

text \<open>The success payload of \<^verbatim>\<open>compare_times\<close> for two parsed values whose comparison gives \<open>c\<close>
  (negative, zero or positive), written with the difference of the instants \<open>x\<close>.\<close>

definition compare_payload :: "datetime \<Rightarrow> datetime \<Rightarrow> int \<Rightarrow> payload" where
  "compare_payload dt1 dt2 c =
     (let x = instant_us dt2 - instant_us dt1 in
      [(''time1'', VStr (isoformat dt1)),
       (''time2'', VStr (isoformat dt2)),
       (''difference_seconds'', VFloat (int_truediv x 1000000)),
       (''difference_days'', VInt (x div US_PER_DAY)),
       (''difference_formatted'',
          VDict [(''days'', VInt (\<bar>x\<bar> div US_PER_DAY)),
                 (''hours'', VInt ((\<bar>x\<bar> mod US_PER_DAY) div 1000000 div 3600)),
                 (''minutes'', VInt ((\<bar>x\<bar> mod US_PER_DAY) div 1000000 mod 3600 div 60)),
                 (''seconds'', VInt ((\<bar>x\<bar> mod US_PER_DAY) div 1000000 mod 3600 mod 60))]),
       (''time1_is_before_time2'', VBool (c < 0)),
       (''time1_is_after_time2'', VBool (c > 0)),
       (''times_are_equal'', VBool (c = 0))])"


section \<open>The calendar: day numbers and dates are inverse\<close>

lemma div_split_const:
  fixes r k :: int
  assumes "0 \<le> r" "r < m"
  shows "(r + m * k) div m = k"
  using assms by (simp add: div_pos_pos_trivial)

lemma dby_decomp:
  assumes "0 \<le> a" "a \<le> 3" "0 \<le> b" "b \<le> 24" "0 \<le> c" "c \<le> 3"
  shows "days_before_year (400 * q + 100 * a + 4 * b + c + 1) = 146097 * q + 36524 * a + 1461 * b + 365 * c"
proof -
  define y where "y = 400 * q + 100 * a + 4 * b + c"
  have "y = c + 4 * (100 * q + 25 * a + b)" by (simp add: y_def)
  then have d4: "y div 4 = 100 * q + 25 * a + b"
    using div_split_const [of c 4 "100 * q + 25 * a + b"] assms by simp
  have "y = (4 * b + c) + 100 * (4 * q + a)" by (simp add: y_def)
  then have d100: "y div 100 = 4 * q + a"
    using div_split_const [of "4 * b + c" 100 "4 * q + a"] assms by simp
  have "y = (100 * a + 4 * b + c) + 400 * q" by (simp add: y_def)
  then have d400: "y div 400 = q"
    using div_split_const [of "100 * a + 4 * b + c" 400 q] assms by simp
  have "days_before_year (y + 1) = y * 365 + y div 4 - y div 100 + y div 400"
    by (simp add: days_before_year_def Let_def)
  also have "\<dots> = 146097 * q + 36524 * a + 1461 * b + 365 * c"
    unfolding d4 d100 d400 by (simp add: y_def)
  finally show ?thesis by (simp only: y_def)
qed


lemma div_pred:
  fixes y m :: int
  assumes "0 < m"
  shows "(y - 1) div m = y div m - (if y mod m = 0 then 1 else 0)"
proof (cases "y mod m = 0")
  case True
  have "y = m * (y div m) + y mod m" by simp
  with True have "y = m * (y div m)" by simp
  then have e: "y - 1 = (m - 1) + m * (y div m - 1)"
    by (simp add: algebra_simps)
  have "((m - 1) + m * (y div m - 1)) div m = y div m - 1"
    by (rule div_split_const) (use assms in simp_all)
  then have "(y - 1) div m = y div m - 1"
    by (subst e)
  with True show ?thesis by simp
next
  case False
  have "0 \<le> y mod m" "y mod m < m" using assms by simp_all
  with False have r: "0 \<le> y mod m - 1" "y mod m - 1 < m" by linarith+
  have e: "y - 1 = (y mod m - 1) + m * (y div m)"
    by (simp add: algebra_simps)
  have "((y mod m - 1) + m * (y div m)) div m = y div m"
    by (rule div_split_const [OF r])
  then have "(y - 1) div m = y div m"
    by (subst e)
  with False show ?thesis by simp
qed

lemma dby_step: "days_before_year (y + 1) = days_before_year y + 365 + (if is_leap y then 1 else 0)"
proof -
  have m: "y mod 400 = 0 \<Longrightarrow> y mod 100 = 0" "y mod 100 = 0 \<Longrightarrow> y mod 4 = 0"
    using mod_mod_cancel [of 100 400 y] mod_mod_cancel [of 4 100 y] by simp_all
  have d: "(y - 1) div 4 = y div 4 - (if y mod 4 = 0 then 1 else 0)"
    "(y - 1) div 100 = y div 100 - (if y mod 100 = 0 then 1 else 0)"
    "(y - 1) div 400 = y div 400 - (if y mod 400 = 0 then 1 else 0)"
    by (rule div_pred, simp)+
  have l: "days_before_year (y + 1) = y * 365 + y div 4 - y div 100 + y div 400"
    by (simp add: days_before_year_def Let_def)
  have r: "days_before_year y = (y - 1) * 365 + (y - 1) div 4 - (y - 1) div 100 + (y - 1) div 400"
    by (simp add: days_before_year_def Let_def)
  show ?thesis
    unfolding l r d is_leap_def
    using m by (cases "y mod 4 = 0"; cases "y mod 100 = 0"; cases "y mod 400 = 0") simp_all
qed


lemma div32_bounds:
  fixes x k :: int
  assumes "x div 32 = k"
  shows "32 * k \<le> x" "x < 32 * k + 32"
proof -
  have "0 \<le> x mod 32" "x mod 32 < 32" by simp_all
  moreover have "x = 32 * (x div 32) + x mod 32" by simp
  ultimately show "32 * k \<le> x" "x < 32 * k + 32" using assms by linarith+
qed

lemma month_part:
  fixes r :: int and L :: bool
  assumes r: "0 \<le> r" "r < 365"
  defines "k \<equiv> (r + 50) div 32"
  defines "p \<equiv> DAYS_BEFORE_MONTH ! nat k + (if k > 2 \<and> L then 1 else 0)"
  defines "p' \<equiv> p - (DAYS_IN_MONTH ! nat (k - 1) + (if k - 1 = 2 \<and> L then 1 else 0))"
  shows "1 \<le> k \<and> k \<le> 12"
    and "p > r \<Longrightarrow> 2 \<le> k \<and> p' = DAYS_BEFORE_MONTH ! nat (k - 1) + (if k - 1 > 2 \<and> L then 1 else 0)
            \<and> p' \<le> r \<and> r - p' + 1 \<le> (if k - 1 = 2 \<and> L then 29 else DAYS_IN_MONTH ! nat (k - 1))"
    and "\<not> p > r \<Longrightarrow> r - p + 1 \<le> (if k = 2 \<and> L then 29 else DAYS_IN_MONTH ! nat k)"
proof -
  have b: "32 * k \<le> r + 50" "r + 50 < 32 * k + 32"
    using div32_bounds [of "r + 50" k] by (simp_all add: k_def)
  from b r show k12: "1 \<le> k \<and> k \<le> 12" by linarith
  then have "k = 1 \<or> k = 2 \<or> k = 3 \<or> k = 4 \<or> k = 5 \<or> k = 6 \<or> k = 7 \<or> k = 8
    \<or> k = 9 \<or> k = 10 \<or> k = 11 \<or> k = 12" by presburger
  then consider "k = 1" | "k = 2" | "k = 3" | "k = 4" | "k = 5" | "k = 6" | "k = 7" | "k = 8"
    | "k = 9" | "k = 10" | "k = 11" | "k = 12" by blast
  note cs = this
  {
    assume "p > r"
    from cs show "2 \<le> k \<and> p' = DAYS_BEFORE_MONTH ! nat (k - 1) + (if k - 1 > 2 \<and> L then 1 else 0)
            \<and> p' \<le> r \<and> r - p' + 1 \<le> (if k - 1 = 2 \<and> L then 29 else DAYS_IN_MONTH ! nat (k - 1))"
      using b r \<open>p > r\<close>
      by cases (auto simp add: p_def p'_def DAYS_BEFORE_MONTH_def DAYS_IN_MONTH_def split: if_splits)
  }
  {
    assume "\<not> p > r"
    from cs show "r - p + 1 \<le> (if k = 2 \<and> L then 29 else DAYS_IN_MONTH ! nat k)"
      using b r \<open>\<not> p > r\<close>
      by cases (auto simp add: p_def DAYS_BEFORE_MONTH_def DAYS_IN_MONTH_def split: if_splits)
  }
qed


lemma mod_zero_iff_top:
  fixes r m k :: int
  assumes "1 \<le> r" "r \<le> m"
  shows "(r + m * k) mod m = 0 \<longleftrightarrow> r = m"
proof (cases "r = m")
  case True
  then show ?thesis by simp
next
  case False
  with assms have "0 \<le> r" "r < m" by linarith+
  then have "r mod m = r" by (simp add: mod_pos_pos_trivial)
  with assms False show ?thesis by simp
qed

lemma is_leap_decomp:
  assumes "0 \<le> a" "a \<le> 3" "0 \<le> b" "b \<le> 24" "0 \<le> c" "c \<le> 3"
  shows "is_leap (400 * q + 100 * a + 4 * b + c + 1) = (c = 3 \<and> (b \<noteq> 24 \<or> a = 3))"
proof -
  define y where "y = 400 * q + 100 * a + 4 * b + c + 1"
  have "y = (c + 1) + 4 * (100 * q + 25 * a + b)" by (simp add: y_def)
  then have m4: "y mod 4 = 0 \<longleftrightarrow> c + 1 = 4"
    using mod_zero_iff_top [of "c + 1" 4 "100 * q + 25 * a + b"] assms by simp
  have "y = (4 * b + c + 1) + 100 * (4 * q + a)" by (simp add: y_def)
  then have m100: "y mod 100 = 0 \<longleftrightarrow> 4 * b + c + 1 = 100"
    using mod_zero_iff_top [of "4 * b + c + 1" 100 "4 * q + a"] assms by simp
  have "y = (100 * a + 4 * b + c + 1) + 400 * q" by (simp add: y_def)
  then have m400: "y mod 400 = 0 \<longleftrightarrow> 100 * a + 4 * b + c + 1 = 400"
    using mod_zero_iff_top [of "100 * a + 4 * b + c + 1" 400 q] assms by simp
  have "is_leap y = (c = 3 \<and> (b \<noteq> 24 \<or> a = 3))"
    unfolding is_leap_def m4 m100 m400 using assms by auto
  then show ?thesis by (simp only: y_def)
qed


lemma ord2ymd_props:
  obtains y m d where "ord2ymd n = (y, m, d)" "1 \<le> m" "m \<le> 12" "1 \<le> d"
    "d \<le> days_in_month y m" "ymd2ord y m d = n"
proof -
  define q where "q = (n - 1) div 146097"
  define r where "r = (n - 1) mod 146097"
  define a where "a = r div 36524"
  define r1 where "r1 = r mod 36524"
  define b where "b = r1 div 1461"
  define r2 where "r2 = r1 mod 1461"
  define c where "c = r2 div 365"
  define r3 where "r3 = r2 mod 365"
  have rb: "0 \<le> r" "r < 146097" by (simp_all add: r_def)
  have r1b: "0 \<le> r1" "r1 < 36524" by (simp_all add: r1_def)
  have r2b: "0 \<le> r2" "r2 < 1461" by (simp_all add: r2_def)
  have r3b: "0 \<le> r3" "r3 < 365" by (simp_all add: r3_def)
  have e0: "n - 1 = 146097 * q + r" by (simp add: q_def r_def)
  have e1: "r = 36524 * a + r1" by (simp add: a_def r1_def)
  have e2: "r1 = 1461 * b + r2" by (simp add: b_def r2_def)
  have e3: "r2 = 365 * c + r3" by (simp add: c_def r3_def)
  have ab: "0 \<le> a" "a \<le> 4" using e1 rb r1b by linarith+
  have bb: "0 \<le> b" "b \<le> 24" using e2 r1b r2b by linarith+
  have cb: "0 \<le> c" "c \<le> 4" using e3 r2b r3b by linarith+
  define L where "L = (c = 3 \<and> (b \<noteq> 24 \<or> a = 3))"
  define k where "k = (r3 + 50) div 32"
  define p where "p = DAYS_BEFORE_MONTH ! nat k + (if k > 2 \<and> L then 1 else 0)"
  define p' where "p' = p - (DAYS_IN_MONTH ! nat (k - 1) + (if k - 1 = 2 \<and> L then 1 else 0))"
  define Y where "Y = q * 400 + 1 + a * 100 + b * 4 + c"
  have o: "ord2ymd n = (if c = 4 \<or> a = 4 then (Y - 1, 12, 31)
                       else if p > r3 then (Y, k - 1, r3 - p' + 1) else (Y, k, r3 - p + 1))"
    unfolding ord2ymd_def Let_def DI400Y_def DI100Y_def DI4Y_def Y_def p'_def p_def k_def L_def
      r3_def c_def r2_def b_def r1_def a_def r_def q_def by simp
  show thesis
  proof (cases "a = 4")
    case True
    with e1 rb r1b have "r1 = 0" by linarith
    with e2 bb r2b have "b = 0" "r2 = 0" by linarith+
    with e3 cb r3b have "c = 0" "r3 = 0" by linarith+
    have Y: "Y - 1 = 400 * q + 100 * 3 + 4 * 24 + 3 + 1"
      using True \<open>b = 0\<close> \<open>c = 0\<close> by (simp add: Y_def)
    have d: "days_before_year (Y - 1) = 146097 * q + 145731"
      unfolding Y by (subst dby_decomp) simp_all
    have l: "is_leap (Y - 1)"
      unfolding Y by (subst is_leap_decomp) simp_all
    have "ymd2ord (Y - 1) 12 31 = n"
      using d l e0 e1 True \<open>r1 = 0\<close>
      by (simp add: ymd2ord_def days_before_month_def DAYS_BEFORE_MONTH_def)
    moreover have "31 \<le> days_in_month (Y - 1) 12"
      by (simp add: days_in_month_def DAYS_IN_MONTH_def)
    moreover have "ord2ymd n = (Y - 1, 12, 31)" using o True by simp
    ultimately show thesis by (intro that [of "Y - 1" 12 31]) simp_all
  next
    case False
    with ab have a3: "a \<le> 3" by linarith
    show thesis
    proof (cases "c = 4")
      case True
      with e3 r2b r3b have "r3 = 0" by linarith
      have "b \<noteq> 24" using e2 e3 True r1b r3b by linarith
      with bb have b23: "b \<le> 23" by linarith
      have Y: "Y - 1 = 400 * q + 100 * a + 4 * b + 3 + 1"
        using True by (simp add: Y_def)
      have d: "days_before_year (Y - 1) = 146097 * q + 36524 * a + 1461 * b + 1095"
        unfolding Y using ab a3 bb by (subst dby_decomp) simp_all
      have l: "is_leap (Y - 1)"
        unfolding Y using ab a3 bb \<open>b \<noteq> 24\<close> by (subst is_leap_decomp) simp_all
      have "ymd2ord (Y - 1) 12 31 = n"
        using d l e0 e1 e2 e3 True \<open>r3 = 0\<close>
        by (simp add: ymd2ord_def days_before_month_def DAYS_BEFORE_MONTH_def)
      moreover have "31 \<le> days_in_month (Y - 1) 12"
        by (simp add: days_in_month_def DAYS_IN_MONTH_def)
      moreover have "ord2ymd n = (Y - 1, 12, 31)" using o True by simp
      ultimately show thesis by (intro that [of "Y - 1" 12 31]) simp_all
    next
      case c4: False
      with cb have c3: "c \<le> 3" by linarith
      have Y: "Y = 400 * q + 100 * a + 4 * b + c + 1" by (simp add: Y_def)
      have d: "days_before_year Y = 146097 * q + 36524 * a + 1461 * b + 365 * c"
        unfolding Y by (rule dby_decomp) (use ab a3 bb cb c3 in simp_all)
      have l: "is_leap Y = L"
        unfolding Y L_def by (rule is_leap_decomp) (use ab a3 bb cb c3 in simp_all)
      have nn: "n = days_before_year Y + r3 + 1"
        using d e0 e1 e2 e3 by linarith
      note mp1 = month_part(1) [OF r3b, folded k_def]
      note mp2 = month_part(2) [OF r3b, of L, folded k_def, folded p_def, folded p'_def]
      note mp3 = month_part(3) [OF r3b, of L, folded k_def, folded p_def]
      show thesis
      proof (cases "p > r3")
        case True
        from mp2 [OF True] have k2: "2 \<le> k"
          and pe: "p' = DAYS_BEFORE_MONTH ! nat (k - 1) + (if k - 1 > 2 \<and> L then 1 else 0)"
          and ple: "p' \<le> r3"
          and dle: "r3 - p' + 1 \<le> (if k - 1 = 2 \<and> L then 29 else DAYS_IN_MONTH ! nat (k - 1))"
          by simp_all
        have "ord2ymd n = (Y, k - 1, r3 - p' + 1)" using o False c4 True by simp
        moreover have "1 \<le> k - 1" "k - 1 \<le> 12" using k2 mp1 by linarith+
        moreover have "1 \<le> r3 - p' + 1" using ple by linarith
        moreover have "r3 - p' + 1 \<le> days_in_month Y (k - 1)"
          using dle by (simp add: days_in_month_def l)
        moreover have "ymd2ord Y (k - 1) (r3 - p' + 1) = n"
          unfolding ymd2ord_def days_before_month_def l using pe nn by simp
        ultimately show thesis by (rule that)
      next
        case np: False
        have "ord2ymd n = (Y, k, r3 - p + 1)" using o False c4 np by simp
        moreover have "1 \<le> k" "k \<le> 12" using mp1 by simp_all
        moreover have "1 \<le> r3 - p + 1" using np by linarith
        moreover have "r3 - p + 1 \<le> days_in_month Y k"
          using mp3 [OF np] by (simp add: days_in_month_def l)
        moreover have "ymd2ord Y k (r3 - p + 1) = n"
          unfolding ymd2ord_def days_before_month_def l using nn by (simp add: p_def)
        ultimately show thesis by (rule that)
      qed
    qed
  qed
qed


lemma month_cases:
  fixes m :: int
  assumes "1 \<le> m" "m \<le> 12"
  obtains "m = 1" | "m = 2" | "m = 3" | "m = 4" | "m = 5" | "m = 6" | "m = 7" | "m = 8"
    | "m = 9" | "m = 10" | "m = 11" | "m = 12"
proof -
  from assms have "m = 1 \<or> m = 2 \<or> m = 3 \<or> m = 4 \<or> m = 5 \<or> m = 6 \<or> m = 7 \<or> m = 8
    \<or> m = 9 \<or> m = 10 \<or> m = 11 \<or> m = 12" by presburger
  then show thesis using that by blast
qed

lemma dbm_succ:
  assumes "1 \<le> m" "m < 12"
  shows "days_before_month y (m + 1) = days_before_month y m + days_in_month y m"
proof -
  from assms have "1 \<le> m" "m \<le> 12" by simp_all
  then show ?thesis
    using assms(2)
    by (cases rule: month_cases)
      (simp_all add: days_before_month_def days_in_month_def DAYS_BEFORE_MONTH_def DAYS_IN_MONTH_def)
qed

lemma dim_bounds:
  assumes "1 \<le> m" "m \<le> 12"
  shows "28 \<le> days_in_month y m" "days_in_month y m \<le> 31"
  using assms
  by (cases rule: month_cases; simp add: days_in_month_def DAYS_IN_MONTH_def)+

lemma dbm_last:
  "days_before_month y 12 + days_in_month y 12 = 365 + (if is_leap y then 1 else 0)"
  by (simp add: days_before_month_def days_in_month_def DAYS_BEFORE_MONTH_def DAYS_IN_MONTH_def)

lemma dbm_first: "days_before_month y 1 = 0"
  by (simp add: days_before_month_def DAYS_BEFORE_MONTH_def)

lemma dbm_mono:
  assumes "1 \<le> m" "m < m'" "m' \<le> 12"
  shows "days_before_month y m + days_in_month y m \<le> days_before_month y m'"
proof -
  have "m + 1 \<le> m'" using assms by simp
  then have "m' \<le> 12 \<longrightarrow> days_before_month y (m + 1) \<le> days_before_month y m'"
  proof (induction m' rule: int_ge_induct)
    case base
    show ?case by simp
  next
    case (step i)
    show ?case
    proof
      assume "i + 1 \<le> 12"
      then have i: "1 \<le> i" "i < 12" using step.hyps assms(1) by linarith+
      then have "days_before_month y (i + 1) = days_before_month y i + days_in_month y i"
        by (rule dbm_succ)
      moreover have "28 \<le> days_in_month y i" using i by (intro dim_bounds) simp_all
      moreover have "days_before_month y (m + 1) \<le> days_before_month y i"
        using step.IH i by simp
      ultimately show "days_before_month y (m + 1) \<le> days_before_month y (i + 1)" by linarith
    qed
  qed
  with assms show ?thesis using dbm_succ [of m y] by simp
qed

lemma ymd2ord_range:
  assumes "valid_date y m d"
  shows "days_before_year y < ymd2ord y m d" "ymd2ord y m d \<le> days_before_year (y + 1)"
proof -
  from assms have m: "1 \<le> m" "m \<le> 12" and d: "1 \<le> d" "d \<le> days_in_month y m"
    by (simp_all add: valid_date_def)
  have lo: "0 \<le> days_before_month y m"
  proof (cases "m = 1")
    case True then show ?thesis by (simp add: dbm_first)
  next
    case False
    then have "1 < m" using m by simp
    from dbm_mono [where m = 1 and m' = m and y = y] \<open>1 < m\<close> m(2)
      dim_bounds(1) [of 1 y] dbm_first [of y]
    show ?thesis by simp
  qed
  have hi: "days_before_month y m + days_in_month y m \<le> 365 + (if is_leap y then 1 else 0)"
  proof (cases "m = 12")
    case True then show ?thesis using dbm_last [of y] by simp
  next
    case False
    then have "m < 12" using m by simp
    from dbm_mono [where m = m and m' = 12 and y = y] m(1) \<open>m < 12\<close>
      dim_bounds(1) [of 12 y] dbm_last [of y]
    show ?thesis by simp
  qed
  show "days_before_year y < ymd2ord y m d" using lo d by (simp add: ymd2ord_def)
  show "ymd2ord y m d \<le> days_before_year (y + 1)"
    using hi d by (simp add: ymd2ord_def dby_step)
qed

lemma dby_mono:
  assumes "y \<le> y'"
  shows "days_before_year y \<le> days_before_year y'"
  using assms
proof (induction y' rule: int_ge_induct)
  case base
  show ?case by simp
next
  case (step i)
  then show ?case by (simp add: dby_step)
qed

lemma ymd2ord_inj:
  assumes "valid_date y m d" "valid_date y' m' d'" "ymd2ord y m d = ymd2ord y' m' d'"
  shows "y = y' \<and> m = m' \<and> d = d'"
proof -
  have yy: "y = y'"
  proof (rule ccontr)
    assume "y \<noteq> y'"
    then consider "y + 1 \<le> y'" | "y' + 1 \<le> y" by linarith
    then show False
    proof cases
      case 1
      from dby_mono [OF 1] ymd2ord_range [OF assms(1)] ymd2ord_range [OF assms(2)] assms(3)
      show False by linarith
    next
      case 2
      from dby_mono [OF 2] ymd2ord_range [OF assms(1)] ymd2ord_range [OF assms(2)] assms(3)
      show False by linarith
    qed
  qed
  from assms have m: "1 \<le> m" "m \<le> 12" "1 \<le> m'" "m' \<le> 12"
    and d: "1 \<le> d" "d \<le> days_in_month y m" "1 \<le> d'" "d' \<le> days_in_month y' m'"
    by (simp_all add: valid_date_def)
  have e: "days_before_month y m + d = days_before_month y m' + d'"
    using assms(3) yy by (simp add: ymd2ord_def)
  have d'': "d' \<le> days_in_month y m'" using d yy by simp
  have mm: "m = m'"
  proof (rule ccontr)
    assume "m \<noteq> m'"
    then consider "m < m'" | "m' < m" by linarith
    then show False
    proof cases
      case 1
      from dbm_mono [OF m(1) 1 m(4), of y] e d d'' show False by linarith
    next
      case 2
      from dbm_mono [OF m(3) 2 m(2), of y] e d d'' show False by linarith
    qed
  qed
  with e yy show ?thesis by simp
qed

lemma ord2ymd_ymd2ord:
  assumes "valid_date y m d"
  shows "ord2ymd (ymd2ord y m d) = (y, m, d)"
proof -
  obtain y' m' d' where o: "ord2ymd (ymd2ord y m d) = (y', m', d')"
    and v: "1 \<le> m'" "m' \<le> 12" "1 \<le> d'" "d' \<le> days_in_month y' m'"
    and e: "ymd2ord y' m' d' = ymd2ord y m d"
    by (rule ord2ymd_props)
  from v have "valid_date y' m' d'" by (simp add: valid_date_def)
  from ymd2ord_inj [OF this assms e] o show ?thesis by simp
qed

lemma dby_1: "days_before_year 1 = 0"
  by (simp add: days_before_year_def)

lemma dby_10000: "days_before_year 10000 = 3652059"
  by (simp add: days_before_year_def)

lemma ymd2ord_bounds:
  assumes "valid_date y m d" "1 \<le> y" "y \<le> 9999"
  shows "1 \<le> ymd2ord y m d" "ymd2ord y m d \<le> MAXORDINAL"
proof -
  from dby_mono [OF assms(2)] dby_mono [of "y + 1" 10000] assms(3)
    ymd2ord_range [OF assms(1)] dby_1 dby_10000
  show "1 \<le> ymd2ord y m d" "ymd2ord y m d \<le> MAXORDINAL"
    by (simp_all add: MAXORDINAL_def)
qed

lemma ord2ymd_year_range:
  assumes "1 \<le> n" "n \<le> MAXORDINAL" "ord2ymd n = (y, m, d)"
  shows "1 \<le> y" "y \<le> 9999"
proof -
  obtain y' m' d' where o: "ord2ymd n = (y', m', d')"
    and v: "1 \<le> m'" "m' \<le> 12" "1 \<le> d'" "d' \<le> days_in_month y' m'"
    and e: "ymd2ord y' m' d' = n"
    by (rule ord2ymd_props)
  from o assms(3) have [simp]: "y' = y" "m' = m" "d' = d" by simp_all
  from v have vd: "valid_date y m d" by (simp add: valid_date_def)
  note r = ymd2ord_range [OF vd]
  show "1 \<le> y"
  proof (rule ccontr)
    assume "\<not> 1 \<le> y"
    then have "y + 1 \<le> 1" by simp
    from dby_mono [OF this] r e assms(1) dby_1 show False by simp
  qed
  show "y \<le> 9999"
  proof (rule ccontr)
    assume "\<not> y \<le> 9999"
    then have "10000 \<le> y" by simp
    from dby_mono [OF this] r e assms(2) dby_10000 show False by (simp add: MAXORDINAL_def)
  qed
qed

section \<open>Floats: the integers of a magnitude below \<^verbatim>\<open>2**53\<close> are exact\<close>

lemma bit_length_bounds:
  "0 < n \<Longrightarrow> 1 \<le> bit_length n \<and> 2 ^ nat (bit_length n - 1) \<le> n \<and> n < 2 ^ nat (bit_length n)"
proof (induction n rule: bit_length.induct)
  case (1 n)
  show ?case
  proof (cases "n = 1")
    case True
    have "bit_length 1 = 1" by (simp add: bit_length.simps [of 1] bit_length.simps [of 0])
    with True show ?thesis by simp
  next
    case False
    with 1(2) have h: "0 < n div 2" by simp
    define b where "b = bit_length (n div 2)"
    have IH: "1 \<le> b" "2 ^ nat (b - 1) \<le> n div 2" "n div 2 < 2 ^ nat b"
      using 1(1) 1(2) h unfolding b_def by simp_all
    have bl: "bit_length n = 1 + b"
      using 1(2) unfolding b_def by (subst bit_length.simps) simp
    have n1: "nat (1 + b - 1) = Suc (nat (b - 1))" using IH(1) by simp
    have n2: "nat (1 + b) = Suc (nat b)" using IH(1) by simp
    have lo: "2 * (n div 2) \<le> n" by simp
    have hi: "n < 2 * (n div 2) + 2" by presburger
    have "2 ^ nat (1 + b - 1) \<le> n" unfolding n1 using IH(2) lo by simp
    moreover have "n < 2 ^ nat (1 + b)" unfolding n2 using IH(3) hi by simp
    ultimately show ?thesis using IH(1) unfolding bl by simp
  qed
qed

lemma quotient_of_of_int: "quotient_of (of_int m :: rat) = (m, 1)"
  using quotient_of_int [of m] by (simp add: Rat.of_int_def)

lemma round_half_even_of_int [simp]: "round_half_even (of_int m) = m"
  by (simp add: round_half_even_def Let_def)

lemma round_double_of_int:
  assumes "\<bar>n\<bar> < 2 ^ 53"
  shows "round_double (of_int n) = of_int n"
proof (cases "n = 0")
  case True
  then show ?thesis by (simp add: round_double_def)
next
  case False
  define b where "b = bit_length \<bar>n\<bar>"
  have pos: "0 < \<bar>n\<bar>" using False by simp
  note B = bit_length_bounds [OF pos, folded b_def]
  have b53: "b \<le> 53"
  proof (rule ccontr)
    assume "\<not> b \<le> 53"
    then have "53 \<le> nat (b - 1)" by simp
    then have "(2::int) ^ 53 \<le> 2 ^ nat (b - 1)" by (intro power_increasing) simp_all
    with B assms show False by linarith
  qed
  have q: "quotient_of \<bar>of_int n :: rat\<bar> = (\<bar>n\<bar>, 1)"
    by (simp only: of_int_abs [symmetric] quotient_of_of_int)
  have b1: "bit_length 1 = 1" by (simp add: bit_length.simps [of 1] bit_length.simps [of 0])
  have p: "pow2 (b - 1) \<le> \<bar>of_int n\<bar>"
  proof -
    have "(of_int (2 ^ nat (b - 1)) :: rat) \<le> of_int \<bar>n\<bar>" using B by (simp only: of_int_le_iff)
    then show ?thesis using B by (simp add: pow2_def)
  qed
  have e: "float_exponent (of_int n) = b - 1"
    unfolding float_exponent_def q using p by (simp add: b1 b_def [symmetric] Let_def)
  define k where "k = nat (53 - b)"
  have u: "pow2 (max (b - 1) (- 1022) - 52) = 1 / 2 ^ k"
    using B b53 by (auto simp: pow2_def k_def max_def nat_diff_distrib')
  have "(of_int n :: rat) * 2 ^ k = of_int (n * 2 ^ k)" by simp
  then have r: "round_half_even (of_int n * 2 ^ k) = n * 2 ^ k"
    by (simp only: round_half_even_of_int)
  have "round_double (of_int n) = of_int (round_half_even (of_int n / (1 / 2 ^ k))) * (1 / 2 ^ k)"
    unfolding round_double_def e u using False by (simp add: Let_def)
  also have "\<dots> = of_int (n * 2 ^ k) * (1 / 2 ^ k)" using r by simp
  also have "\<dots> = of_int n" by simp
  finally show ?thesis .
qed

lemma int_truediv_exact:
  assumes "b \<noteq> 0" "a mod b = 0" "\<bar>a div b\<bar> < 2 ^ 53"
  shows "int_truediv a b = of_int (a div b)"
proof -
  have "a = (a div b) * b" using assms(2) by auto
  then have "(of_int a :: rat) = of_int ((a div b) * b)" by simp
  then have "(of_int a :: rat) = of_int (a div b) * of_int b" by (simp only: of_int_mult)
  then have "(of_int a :: rat) / of_int b = of_int (a div b)" using assms(1) by simp
  then show ?thesis unfolding int_truediv_def by (simp only: round_double_of_int [OF assms(3)])
qed

section \<open>Every operation returns a structured result\<close>

lemma ok_bnd: "(\<And>x. ok P (f x)) \<Longrightarrow> ok P (bnd m f)"
  by (cases m) (simp_all add: bnd_def ok_def)

lemma ok_Inr: "P v \<Longrightarrow> ok P (Inr v)"
  by (simp add: ok_def)

lemma ok_if: "ok P a \<Longrightarrow> ok P b \<Longrightarrow> ok P (if c then a else b)"
  by simp

lemma ok_option: "ok P a \<Longrightarrow> (\<And>t. ok P (b t)) \<Longrightarrow> ok P (case x of None \<Rightarrow> a | Some t \<Rightarrow> b t)"
  by (cases x) simp_all

lemma try_except_1:
  "ok (structured ks) body \<Longrightarrow> (\<And>e. structured ks (h e)) \<Longrightarrow>
   returns_structured ks (try_except body [([Exception], h)])"
  by (cases body) (simp_all add: try_except_def returns_structured_def isinstance_def ok_def)

lemma try_except_2:
  "ok (structured ks) body \<Longrightarrow> (\<And>e. structured ks (g e)) \<Longrightarrow> (\<And>e. structured ks (h e)) \<Longrightarrow>
   returns_structured ks (try_except body [(cs, g), ([Exception], h)])"
  by (cases body) (simp_all add: try_except_def returns_structured_def isinstance_def ok_def)

lemma try_except_verdict:
  "ok verdict_payload body \<Longrightarrow> (\<And>e. verdict_payload (g e)) \<Longrightarrow> (\<And>e. verdict_payload (h e)) \<Longrightarrow>
   returns_verdict (try_except body [(cs, g), ([Exception], h)])"
  by (cases body) (simp_all add: try_except_def returns_verdict_def isinstance_def ok_def)

lemmas ok_intros = ok_bnd ok_Inr ok_if ok_option

lemmas shape_simps = structured_def keys_def error_payload_def verdict_payload_def

lemma get_current_time_structured:
  "returns_structured [''datetime'', ''date'', ''time'', ''time_12h'', ''timezone'',
     ''timezone_offset'', ''day_of_week'', ''unix_timestamp'', ''formatted'']
     (get_current_time E tz)"
  unfolding get_current_time_def except_Exception_def Let_def
  by (rule try_except_1) (intro ok_intros, simp_all add: shape_simps)

lemma get_timezone_info_structured:
  "returns_structured [''timezone'', ''current_time'', ''offset'', ''offset_hours'', ''abbreviation'']
     (get_timezone_info E tz)"
  unfolding get_timezone_info_def except_Exception_def Let_def
  by (rule try_except_1) (intro ok_intros, simp_all add: shape_simps)

lemma list_timezones_structured:
  "returns_structured [''count'', ''timezones''] (list_timezones E ft)"
  unfolding list_timezones_def except_Exception_def Let_def
  by (rule try_except_1) (intro ok_intros, simp_all add: shape_simps)

lemma parse_datetime_structured:
  "returns_structured [''original'', ''parsed'', ''date'', ''time'', ''day_of_week'',
     ''unix_timestamp'', ''is_past'', ''is_future''] (parse_datetime E s f)"
  unfolding parse_datetime_def except_Exception_def Let_def
  by (rule try_except_2) (intro ok_intros, simp_all add: shape_simps)

lemma compare_times_structured:
  "returns_structured [''time1'', ''time2'', ''difference_seconds'', ''difference_days'',
     ''difference_formatted'', ''time1_is_before_time2'', ''time1_is_after_time2'',
     ''times_are_equal''] (compare_times E a b f)"
  unfolding compare_times_def except_Exception_def Let_def
  by (rule try_except_2) (intro ok_intros, simp_all add: shape_simps)

lemma add_time_delta_structured:
  "returns_structured [''original'', ''delta_applied'', ''result'', ''formatted'', ''unix_timestamp'']
     (add_time_delta E b d h m s f)"
  unfolding add_time_delta_def except_Exception_def Let_def
  by (rule try_except_2) (intro ok_intros, simp_all add: shape_simps)

lemma is_valid_datetime_verdict: "returns_verdict (is_valid_datetime E s f)"
  unfolding is_valid_datetime_def Let_def
  by (rule try_except_verdict) (intro ok_intros, simp_all add: shape_simps)

lemma unix_to_datetime_structured:
  "returns_structured [''unix_timestamp'', ''datetime'', ''date'', ''time'', ''formatted'', ''timezone'']
     (unix_to_datetime E t tz)"
  unfolding unix_to_datetime_def except_Exception_def Let_def
  by (rule try_except_2) (intro ok_intros, simp_all add: shape_simps)

text \<open>
  Claim C1. Each of the eight operations, on every input and in every environment (whatever
  the clock, the zone database and the library calls do, including every exception they
  raise), raises nothing and returns a mapping of one of two shapes: the success payload of
  the operation, with exactly its keys, or an error payload, whose \<^verbatim>\<open>error\<close> entry is a message
  string, alone or with a \<^verbatim>\<open>hint\<close> or a sample of valid names. For \<^verbatim>\<open>is_valid_datetime\<close> the two
  shapes are its verdicts: \<^verbatim>\<open>valid\<close> true with the parsed string, or \<^verbatim>\<open>valid\<close> false with the
  \<^verbatim>\<open>error\<close> message string.
\<close>

theorem operations_return_structured_results:
  "returns_structured [''datetime'', ''date'', ''time'', ''time_12h'', ''timezone'',
     ''timezone_offset'', ''day_of_week'', ''unix_timestamp'', ''formatted'']
     (get_current_time E tz_opt)
   \<and> returns_structured [''timezone'', ''current_time'', ''offset'', ''offset_hours'', ''abbreviation'']
     (get_timezone_info E tz)
   \<and> returns_structured [''count'', ''timezones''] (list_timezones E filter_text)
   \<and> returns_structured [''original'', ''parsed'', ''date'', ''time'', ''day_of_week'',
     ''unix_timestamp'', ''is_past'', ''is_future''] (parse_datetime E date_string format_string)
   \<and> returns_structured [''time1'', ''time2'', ''difference_seconds'', ''difference_days'',
     ''difference_formatted'', ''time1_is_before_time2'', ''time1_is_after_time2'',
     ''times_are_equal''] (compare_times E time1 time2 format_string)
   \<and> returns_structured [''original'', ''delta_applied'', ''result'', ''formatted'', ''unix_timestamp'']
     (add_time_delta E base_time days hours minutes seconds format_string)
   \<and> returns_verdict (is_valid_datetime E date_string format_string)
   \<and> returns_structured [''unix_timestamp'', ''datetime'', ''date'', ''time'', ''formatted'', ''timezone'']
     (unix_to_datetime E ts tz_opt)"
  by (intro conjI get_current_time_structured get_timezone_info_structured
      list_timezones_structured parse_datetime_structured compare_times_structured
      add_time_delta_structured is_valid_datetime_verdict unix_to_datetime_structured)

section \<open>Parsed values, differences and comparisons\<close>

lemma bnd_Inr_iff: "bnd m f = Inr v \<longleftrightarrow> (\<exists>x. m = Inr x \<and> f x = Inr v)"
  by (cases m) (simp_all add: bnd_def)

lemma bnd_Inr [simp]: "bnd (Inr x) f = f x"
  by (simp add: bnd_def)

lemma bnd_Inl [simp]: "bnd (Inl e) f = Inl e"
  by (simp add: bnd_def)

lemma datetime_new_Inr:
  assumes "datetime_new y m d hh mm ss us tzi fld = Inr dt"
  shows "dt = \<lparr> dt_year = y, dt_month = m, dt_day = d, dt_hour = hh, dt_minute = mm,
                 dt_second = ss, dt_microsecond = us, dt_tzinfo = tzi, dt_fold = fld \<rparr>"
    and "1 \<le> y" "y \<le> 9999" "valid_date y m d" "0 \<le> hh" "hh \<le> 23" "0 \<le> mm" "mm \<le> 59"
    "0 \<le> ss" "ss \<le> 59" "0 \<le> us" "us \<le> 999999"
  using assms
  by (auto simp: datetime_new_def MINYEAR_def MAXYEAR_def valid_date_def split: if_splits)

lemma timezone_new_Inr:
  assumes "timezone_new g gf = Inr z"
  shows "- US_PER_DAY < tz_offset z" "tz_offset z < US_PER_DAY"
  using assms by (auto simp: timezone_new_def Let_def split: if_splits)

lemma strptime_Inr:
  assumes "strptime E s f = Inr dt"
  shows "valid_datetime dt" and "(dt_tzinfo dt \<noteq> None) = format_aware f"
proof -
  from assms obtain its where t: "tokenize False f = Inr its"
    by (auto simp: strptime_def split: sum.splits)
  from assms t obtain y m d hh mm ss fr g gf tzi where
    z: "(if CHR ''z'' \<in> set (directives its)
         then bnd (timezone_new g gf) (\<lambda>z. Inr (Some z)) else Inr None) = Inr tzi"
    and n: "datetime_new y m d hh mm ss fr tzi 0 = Inr dt"
    by (auto simp: strptime_def bnd_Inr_iff)
  note dn = datetime_new_Inr [OF n]
  have tz: "dt_tzinfo dt = tzi" using dn(1) by simp
  have zr: "case tzi of None \<Rightarrow> True | Some z \<Rightarrow> - US_PER_DAY < tz_offset z \<and> tz_offset z < US_PER_DAY"
    using z by (auto simp: bnd_Inr_iff split: if_splits dest: timezone_new_Inr)
  show "valid_datetime dt"
    unfolding valid_datetime_def tz using dn zr by simp
  show "(dt_tzinfo dt \<noteq> None) = format_aware f"
    unfolding tz format_aware_def t using z by (auto simp: bnd_Inr_iff split: if_splits)
qed


lemma try_except_Inr [simp]: "try_except (Inr v) hs = Inr v"
  by (simp add: try_except_def)

lemma td_us_of_us [simp]: "td_us (td_of_us x) = x"
proof -
  have "x mod 1000000 = (x mod 86400000000) mod 1000000"
    by (simp add: mod_mod_cancel)
  moreover have "x mod 86400000000 =
      1000000 * ((x mod 86400000000) div 1000000) + (x mod 86400000000) mod 1000000"
    by simp
  ultimately have e1: "1000000 * ((x mod 86400000000) div 1000000) + x mod 1000000 = x mod 86400000000"
    by linarith
  have e2: "x = 86400000000 * (x div 86400000000) + x mod 86400000000" by simp
  have "td_us (td_of_us x) = 86400000000 * (x div 86400000000)
      + 1000000 * ((x mod 86400000000) div 1000000) + x mod 1000000"
    by (simp add: td_us_def td_of_us_def US_PER_DAY_def algebra_simps)
  with e1 e2 show ?thesis by linarith
qed

lemma td_days_of_us [simp]: "td_days (td_of_us x) = x div US_PER_DAY"
  by (simp add: td_of_us_def)

lemma td_seconds_of_us [simp]: "td_seconds (td_of_us x) = (x mod US_PER_DAY) div 1000000"
  by (simp add: td_of_us_def)

lemma div_day_bounds:
  assumes "- (n * US_PER_DAY) \<le> x" "x \<le> n * US_PER_DAY"
  shows "- n \<le> x div US_PER_DAY" "x div US_PER_DAY \<le> n"
proof -
  have "0 \<le> x mod US_PER_DAY" "x mod US_PER_DAY < US_PER_DAY" by (simp_all add: US_PER_DAY_def)
  moreover have "x = US_PER_DAY * (x div US_PER_DAY) + x mod US_PER_DAY" by simp
  ultimately show "- n \<le> x div US_PER_DAY" "x div US_PER_DAY \<le> n"
    using assms unfolding US_PER_DAY_def by linarith+
qed

lemma td_checked_small:
  assumes "- (999999999 * US_PER_DAY) \<le> x" "x \<le> 999999999 * US_PER_DAY"
  shows "td_checked x = Inr (td_of_us x)"
  using div_day_bounds [OF assms] by (simp add: td_checked_def Let_def)

lemma instant_us_bounds:
  assumes "valid_datetime dt"
  shows "0 \<le> instant_us dt" "instant_us dt \<le> 3652062 * US_PER_DAY"
proof -
  from assms have v: "valid_date (dt_year dt) (dt_month dt) (dt_day dt)" "1 \<le> dt_year dt"
    "dt_year dt \<le> 9999" by (simp_all add: valid_datetime_def)
  have o: "1 \<le> toordinal dt" "toordinal dt \<le> 3652059"
    using ymd2ord_bounds [OF v] by (simp_all add: toordinal_def MAXORDINAL_def)
  have s: "0 \<le> day_seconds dt" "day_seconds dt \<le> 86399"
    using assms by (simp_all add: valid_datetime_def day_seconds_def)
  have u: "0 \<le> dt_microsecond dt" "dt_microsecond dt \<le> 999999"
    using assms by (simp_all add: valid_datetime_def)
  define off where "off = (case dt_tzinfo dt of None \<Rightarrow> 0 | Some z \<Rightarrow> tz_offset z)"
  have z: "- 86400000000 < off" "off < 86400000000"
    using assms by (auto simp: off_def valid_datetime_def US_PER_DAY_def split: option.splits)
  have i: "instant_us dt = 86400000000 * toordinal dt + 1000000 * day_seconds dt + dt_microsecond dt - off"
    by (simp add: instant_us_def off_def algebra_simps)
  show "0 \<le> instant_us dt" unfolding i using o s u z by linarith
  show "instant_us dt \<le> 3652062 * US_PER_DAY" unfolding i US_PER_DAY_def using o s u z by linarith
qed

lemma datetime_sub_instant:
  assumes "valid_datetime a" "valid_datetime b" "(dt_tzinfo a = None) = (dt_tzinfo b = None)"
  shows "datetime_sub a b = Inr (td_of_us (instant_us a - instant_us b))"
proof -
  have r: "- (999999999 * US_PER_DAY) \<le> instant_us a - instant_us b"
    "instant_us a - instant_us b \<le> 999999999 * US_PER_DAY"
    using instant_us_bounds [OF assms(1)] instant_us_bounds [OF assms(2)]
    unfolding US_PER_DAY_def by linarith+
  have "datetime_sub a b = td_checked (instant_us a - instant_us b)"
    using assms(3)
    by (cases "dt_tzinfo a"; cases "dt_tzinfo b")
      (simp_all add: datetime_sub_def instant_us_def Let_def algebra_simps)
  with r show ?thesis by (simp add: td_checked_small)
qed

lemma datetime_cmp_Some:
  assumes "valid_datetime a" "valid_datetime b" "(dt_tzinfo a = None) = (dt_tzinfo b = None)"
  shows "\<exists>c. datetime_cmp a b = Some c"
  using assms(3) datetime_sub_instant [OF assms]
  by (cases "dt_tzinfo a"; cases "dt_tzinfo b") (simp_all add: datetime_cmp_def)

lemma td_abs_of_us:
  assumes "- (999999999 * US_PER_DAY) \<le> x" "x \<le> 999999999 * US_PER_DAY"
  shows "td_abs (td_of_us x) = Inr (td_of_us \<bar>x\<bar>)"
proof (cases "x < 0")
  case True
  then have "x div US_PER_DAY < 0" by (simp add: US_PER_DAY_def div_neg_pos_less0)
  moreover have "td_checked (- x) = Inr (td_of_us (- x))"
    using assms by (intro td_checked_small) simp_all
  ultimately show ?thesis using True by (simp add: td_abs_def td_neg_def)
next
  case False
  then have "0 \<le> x div US_PER_DAY" by (simp add: US_PER_DAY_def pos_imp_zdiv_nonneg_iff)
  with False show ?thesis by (simp add: td_abs_def)
qed

lemma compare_times_success:
  assumes p1: "strptime E time1 f = Inr dt1" and p2: "strptime E time2 f = Inr dt2"
  shows "\<exists>c. datetime_cmp dt1 dt2 = Some c
    \<and> compare_times E time1 time2 f = Inr (compare_payload dt1 dt2 c)"
proof -
  note v1 = strptime_Inr [OF p1] and v2 = strptime_Inr [OF p2]
  have aw: "(dt_tzinfo dt1 = None) = (dt_tzinfo dt2 = None)" using v1(2) v2(2) by blast
  then have aw': "(dt_tzinfo dt2 = None) = (dt_tzinfo dt1 = None)" by simp
  obtain c where c: "datetime_cmp dt1 dt2 = Some c"
    using datetime_cmp_Some [OF v1(1) v2(1) aw] by blast
  define x where "x = instant_us dt2 - instant_us dt1"
  have r: "- (999999999 * US_PER_DAY) \<le> x" "x \<le> 999999999 * US_PER_DAY"
    using instant_us_bounds [OF v1(1)] instant_us_bounds [OF v2(1)]
    unfolding US_PER_DAY_def x_def by linarith+
  have s: "datetime_sub dt2 dt1 = Inr (td_of_us x)"
    unfolding x_def by (rule datetime_sub_instant [OF v2(1) v1(1) aw'])
  have a: "td_abs (td_of_us x) = Inr (td_of_us \<bar>x\<bar>)" by (rule td_abs_of_us [OF r])
  have "compare_times E time1 time2 f = Inr (compare_payload dt1 dt2 c)"
    unfolding compare_times_def compare_payload_def x_def [symmetric]
    by (simp add: p1 p2 s a c Let_def datetime_lt_def datetime_gt_def datetime_eq_def
        total_seconds_def)
  with c show ?thesis by blast
qed

section \<open>The three comparisons of \<^verbatim>\<open>compare_times\<close>\<close>

lemma trichotomy_int:
  fixes c :: int
  shows "(c < 0 \<and> \<not> c > 0 \<and> \<not> c = 0) \<or> (\<not> c < 0 \<and> c > 0 \<and> \<not> c = 0) \<or> (\<not> c < 0 \<and> \<not> c > 0 \<and> c = 0)"
  by linarith

text \<open>
  Claim C10. Whenever both strings parse under the format, \<^verbatim>\<open>compare_times\<close> returns a success
  payload whose three booleans \<^verbatim>\<open>time1_is_before_time2\<close>, \<^verbatim>\<open>time1_is_after_time2\<close> and
  \<^verbatim>\<open>times_are_equal\<close> have exactly one true among them, for naive and for aware values.
\<close>

theorem compare_times_exactly_one_relation:
  assumes "strptime E time1 f = Inr dt1" and "strptime E time2 f = Inr dt2"
  shows "\<exists>p b a e. compare_times E time1 time2 f = Inr p
           \<and> field p ''time1_is_before_time2'' = Some (VBool b)
           \<and> field p ''time1_is_after_time2'' = Some (VBool a)
           \<and> field p ''times_are_equal'' = Some (VBool e)
           \<and> ((b \<and> \<not> a \<and> \<not> e) \<or> (\<not> b \<and> a \<and> \<not> e) \<or> (\<not> b \<and> \<not> a \<and> e))"
proof -
  obtain c where p: "compare_times E time1 time2 f = Inr (compare_payload dt1 dt2 c)"
    using compare_times_success [OF assms] by blast
  have f1: "field (compare_payload dt1 dt2 c) ''time1_is_before_time2'' = Some (VBool (c < 0))"
    by (simp add: field_def compare_payload_def Let_def)
  have f2: "field (compare_payload dt1 dt2 c) ''time1_is_after_time2'' = Some (VBool (c > 0))"
    by (simp add: field_def compare_payload_def Let_def)
  have f3: "field (compare_payload dt1 dt2 c) ''times_are_equal'' = Some (VBool (c = 0))"
    by (simp add: field_def compare_payload_def Let_def)
  show ?thesis
    apply (rule exI [of _ "compare_payload dt1 dt2 c"], rule exI [of _ "c < 0"],
        rule exI [of _ "c > 0"], rule exI [of _ "c = 0"])
    apply (intro conjI)
        apply (rule p)
       apply (rule f1)
      apply (rule f2)
     apply (rule f3)
    apply (rule trichotomy_int)
    done
qed

lemma parse_2025_01_01:
  "strptime host_utc ''2025-01-01 00:00:00'' DEFAULT_FORMAT =
     Inr \<lparr> dt_year = 2025, dt_month = 1, dt_day = 1, dt_hour = 0, dt_minute = 0, dt_second = 0,
           dt_microsecond = 0, dt_tzinfo = None, dt_fold = 0 \<rparr>"
  by code_simp

lemma parse_2025_12_31:
  "strptime host_utc ''2025-12-31 23:59:59'' DEFAULT_FORMAT =
     Inr \<lparr> dt_year = 2025, dt_month = 12, dt_day = 31, dt_hour = 23, dt_minute = 59, dt_second = 59,
           dt_microsecond = 0, dt_tzinfo = None, dt_fold = 0 \<rparr>"
  by code_simp

theorem compare_times_exactly_one_relation_witness:
  "strptime host_utc ''2025-01-01 00:00:00'' DEFAULT_FORMAT =
     Inr \<lparr> dt_year = 2025, dt_month = 1, dt_day = 1, dt_hour = 0, dt_minute = 0, dt_second = 0,
           dt_microsecond = 0, dt_tzinfo = None, dt_fold = 0 \<rparr>
   \<and> strptime host_utc ''2025-12-31 23:59:59'' DEFAULT_FORMAT =
     Inr \<lparr> dt_year = 2025, dt_month = 12, dt_day = 31, dt_hour = 23, dt_minute = 59, dt_second = 59,
           dt_microsecond = 0, dt_tzinfo = None, dt_fold = 0 \<rparr>
   \<and> (\<exists>p b a e. compare_times host_utc ''2025-01-01 00:00:00'' ''2025-12-31 23:59:59'' DEFAULT_FORMAT = Inr p
           \<and> field p ''time1_is_before_time2'' = Some (VBool b)
           \<and> field p ''time1_is_after_time2'' = Some (VBool a)
           \<and> field p ''times_are_equal'' = Some (VBool e)
           \<and> ((b \<and> \<not> a \<and> \<not> e) \<or> (\<not> b \<and> a \<and> \<not> e) \<or> (\<not> b \<and> \<not> a \<and> e)))"
  by (intro conjI parse_2025_01_01 parse_2025_12_31
      compare_times_exactly_one_relation [OF parse_2025_01_01 parse_2025_12_31])

section \<open>The difference that \<^verbatim>\<open>compare_times\<close> reports\<close>

lemma floor_rat_div: "\<lfloor>(of_int a :: rat) / 1000000\<rfloor> = a div 1000000"
  using floor_divide_of_int_eq [of a 1000000, where ?'a = rat] by simp

lemma floor_rat_day: "\<lfloor>(of_int a :: rat) / 1000000 / 86400\<rfloor> = a div 86400000000"
  using floor_divide_of_int_eq [of a 86400000000, where ?'a = rat] by simp

lemma abs_rat_div: "\<bar>(of_int a :: rat) / 1000000\<bar> = of_int \<bar>a\<bar> / 1000000"
  by simp

lemma hms_decomposition:
  fixes a :: int
  assumes "0 \<le> a"
  defines "s \<equiv> (a mod 86400000000) div 1000000"
  shows "0 \<le> a div 86400000000" "0 \<le> s div 3600" "s div 3600 < 24"
    "0 \<le> s mod 3600 div 60" "s mod 3600 div 60 < 60" "0 \<le> s mod 3600 mod 60" "s mod 3600 mod 60 < 60"
    "a div 86400000000 * 86400 + s div 3600 * 3600 + s mod 3600 div 60 * 60 + s mod 3600 mod 60
       = a div 1000000"
proof -
  define q where "q = a div 86400000000"
  define r where "r = a mod 86400000000"
  have r: "0 \<le> r" "r < 86400000000" by (simp_all add: r_def)
  have a: "a = r + 1000000 * (86400 * q)" by (simp add: q_def r_def)
  have "(r + 1000000 * (86400 * q)) div 1000000 = 86400 * q + r div 1000000"
    by (rule div_mult_self2) simp
  with a have ad: "a div 1000000 = 86400 * q + s" by (simp add: s_def r_def)
  have s1: "r = 1000000 * s + r mod 1000000" by (simp add: s_def r_def)
  have "0 \<le> r mod 1000000" "r mod 1000000 < 1000000" by simp_all
  with s1 r have sb: "0 \<le> s" "s < 86400" by linarith+
  have h: "s = 3600 * (s div 3600) + s mod 3600" by simp
  have hb: "0 \<le> s mod 3600" "s mod 3600 < 3600" by simp_all
  have m: "s mod 3600 = 60 * (s mod 3600 div 60) + s mod 3600 mod 60" by simp
  have mb: "0 \<le> s mod 3600 mod 60" "s mod 3600 mod 60 < 60" by simp_all
  show "0 \<le> a div 86400000000" using assms(1) by (simp add: pos_imp_zdiv_nonneg_iff)
  show "0 \<le> s div 3600" using sb by (simp add: pos_imp_zdiv_nonneg_iff)
  show "s div 3600 < 24" using h hb sb by linarith
  show "0 \<le> s mod 3600 div 60" using hb by (simp add: pos_imp_zdiv_nonneg_iff)
  show "s mod 3600 div 60 < 60" using m mb hb by linarith
  show "0 \<le> s mod 3600 mod 60" "s mod 3600 mod 60 < 60" by simp_all
  show "a div 86400000000 * 86400 + s div 3600 * 3600 + s mod 3600 div 60 * 60 + s mod 3600 mod 60
       = a div 1000000"
    unfolding ad q_def [symmetric] using h m by linarith
qed

lemma whole_seconds_exact:
  fixes x :: int
  assumes "x mod 1000000 = 0" "\<bar>x\<bar> \<le> 3652062 * 86400000000"
  shows "round_double (of_int x / 1000000) = of_int x / 1000000"
    "(of_int (\<bar>x\<bar> div 1000000) :: rat) = \<bar>of_int x / 1000000\<bar>"
proof -
  define q where "q = x div 1000000"
  have d: "x = 1000000 * q" using assms(1) unfolding q_def by auto
  have a: "\<bar>x\<bar> = 1000000 * \<bar>q\<bar>" unfolding d by (simp add: abs_mult)
  with assms(2) have b: "\<bar>q\<bar> < 2 ^ 53" by simp
  have e: "(of_int x :: rat) / 1000000 = of_int q" unfolding d by simp
  have "int_truediv x 1000000 = of_int (x div 1000000)"
    using assms(1) b unfolding q_def by (intro int_truediv_exact) simp_all
  then show "round_double (of_int x / 1000000) = of_int x / 1000000"
    unfolding e by (simp add: int_truediv_def e q_def)
  have "\<bar>x\<bar> div 1000000 = \<bar>q\<bar>" unfolding a by simp
  then show "(of_int (\<bar>x\<bar> div 1000000) :: rat) = \<bar>of_int x / 1000000\<bar>"
    unfolding e by simp
qed

text \<open>
  Claim C2, as amended. Whenever both strings parse under the format, \<^verbatim>\<open>compare_times\<close> returns
  a success payload. With \<open>x\<close> the exact difference of the two instants (time2 minus time1)
  in microseconds: \<^verbatim>\<open>difference_seconds\<close> is the double nearest to \<open>x / 1000000\<close>;
  \<^verbatim>\<open>difference_days\<close> is \<open>x\<close> divided by the microseconds of a day and rounded towards minus
  infinity; \<^verbatim>\<open>difference_formatted\<close> holds non-negative days, hours below 24, minutes below 60
  and seconds below 60 whose recombination is \<open>\<bar>x\<bar> / 1000000\<close> rounded down to whole seconds,
  the microseconds of the difference being dropped. When \<open>x\<close> is a whole number of seconds,
  \<^verbatim>\<open>difference_seconds\<close> is that number exactly, the recombination is the absolute value of
  \<^verbatim>\<open>difference_seconds\<close>, and \<^verbatim>\<open>difference_days\<close> is \<^verbatim>\<open>difference_seconds\<close> divided by 86400 and
  rounded towards minus infinity.
\<close>

theorem compare_times_difference:
  assumes "strptime E time1 f = Inr dt1" and "strptime E time2 f = Inr dt2"
  shows "\<exists>p ds dd D H M S. compare_times E time1 time2 f = Inr p
           \<and> field p ''difference_seconds'' = Some (VFloat ds)
           \<and> ds = round_double (of_int (instant_us dt2 - instant_us dt1) / 1000000)
           \<and> field p ''difference_days'' = Some (VInt dd)
           \<and> dd = \<lfloor>(of_int (instant_us dt2 - instant_us dt1) :: rat) / 86400000000\<rfloor>
           \<and> field p ''difference_formatted''
               = Some (VDict [(''days'', VInt D), (''hours'', VInt H), (''minutes'', VInt M),
                              (''seconds'', VInt S)])
           \<and> 0 \<le> D \<and> 0 \<le> H \<and> H < 24 \<and> 0 \<le> M \<and> M < 60 \<and> 0 \<le> S \<and> S < 60
           \<and> D * 86400 + H * 3600 + M * 60 + S
               = \<lfloor>\<bar>of_int (instant_us dt2 - instant_us dt1) / 1000000 :: rat\<bar>\<rfloor>
           \<and> ((instant_us dt2 - instant_us dt1) mod 1000000 = 0 \<longrightarrow>
                 ds = of_int (instant_us dt2 - instant_us dt1) / 1000000
                 \<and> of_int (D * 86400 + H * 3600 + M * 60 + S) = \<bar>ds\<bar>
                 \<and> dd = \<lfloor>ds / 86400\<rfloor>)"
proof -
  define x where "x = instant_us dt2 - instant_us dt1"
  define s where "s = (\<bar>x\<bar> mod 86400000000) div 1000000"
  define ds where "ds = round_double (of_int x / 1000000)"
  note v1 = strptime_Inr [OF assms(1)] and v2 = strptime_Inr [OF assms(2)]
  have xb: "\<bar>x\<bar> \<le> 3652062 * 86400000000"
    using instant_us_bounds [OF v1(1)] instant_us_bounds [OF v2(1)]
    unfolding US_PER_DAY_def x_def by linarith
  obtain c where p: "compare_times E time1 time2 f = Inr (compare_payload dt1 dt2 c)"
    using compare_times_success [OF assms] by blast
  have f1: "field (compare_payload dt1 dt2 c) ''difference_seconds'' = Some (VFloat ds)"
    by (simp add: field_def compare_payload_def Let_def x_def ds_def int_truediv_def)
  have f2: "field (compare_payload dt1 dt2 c) ''difference_days'' = Some (VInt (x div 86400000000))"
    by (simp add: field_def compare_payload_def Let_def x_def US_PER_DAY_def)
  have dd: "x div 86400000000 = \<lfloor>(of_int x :: rat) / 86400000000\<rfloor>"
    using floor_divide_of_int_eq [of x 86400000000, where ?'a = rat] by simp
  have f3: "field (compare_payload dt1 dt2 c) ''difference_formatted''
      = Some (VDict [(''days'', VInt (\<bar>x\<bar> div 86400000000)), (''hours'', VInt (s div 3600)),
                     (''minutes'', VInt (s mod 3600 div 60)), (''seconds'', VInt (s mod 3600 mod 60))])"
    by (simp add: field_def compare_payload_def Let_def x_def s_def US_PER_DAY_def)
  have nn: "0 \<le> \<bar>x\<bar>" by simp
  note d = hms_decomposition [OF nn, folded s_def]
  have fl: "\<lfloor>\<bar>of_int x / 1000000 :: rat\<bar>\<rfloor> = \<bar>x\<bar> div 1000000"
    unfolding abs_rat_div by (rule floor_rat_div)
  have w: "x mod 1000000 = 0 \<longrightarrow>
      ds = of_int x / 1000000
      \<and> of_int (\<bar>x\<bar> div 86400000000 * 86400 + s div 3600 * 3600 + s mod 3600 div 60 * 60
                 + s mod 3600 mod 60) = \<bar>ds\<bar>
      \<and> x div 86400000000 = \<lfloor>ds / 86400\<rfloor>"
  proof
    assume m: "x mod 1000000 = 0"
    note e = whole_seconds_exact [OF m xb]
    have 1: "ds = of_int x / 1000000" unfolding ds_def by (rule e(1))
    have 2: "of_int (\<bar>x\<bar> div 86400000000 * 86400 + s div 3600 * 3600 + s mod 3600 div 60 * 60
                 + s mod 3600 mod 60) = \<bar>ds\<bar>"
      unfolding d(8) 1 by (rule e(2))
    have 3: "x div 86400000000 = \<lfloor>ds / 86400\<rfloor>"
      unfolding 1 by (simp only: floor_rat_day)
    from 1 2 3 show "ds = of_int x / 1000000
      \<and> of_int (\<bar>x\<bar> div 86400000000 * 86400 + s div 3600 * 3600 + s mod 3600 div 60 * 60
                 + s mod 3600 mod 60) = \<bar>ds\<bar>
      \<and> x div 86400000000 = \<lfloor>ds / 86400\<rfloor>" by (intro conjI)
  qed
  show ?thesis
    unfolding x_def [symmetric] fl
    apply (rule exI [of _ "compare_payload dt1 dt2 c"], rule exI [of _ ds],
        rule exI [of _ "x div 86400000000"], rule exI [of _ "\<bar>x\<bar> div 86400000000"],
        rule exI [of _ "s div 3600"], rule exI [of _ "s mod 3600 div 60"],
        rule exI [of _ "s mod 3600 mod 60"])
    apply (intro conjI)
                   apply (rule p)
                  apply (rule f1)
                 apply (rule ds_def)
                apply (rule f2)
               apply (rule dd)
              apply (rule f3)
             apply (rule d(1))
            apply (rule d(2))
           apply (rule d(3))
          apply (rule d(4))
         apply (rule d(5))
        apply (rule d(6))
       apply (rule d(7))
      apply (rule d(8))
    apply (rule w)
    done
qed

lemma parse_2024_02_29:
  "strptime host_utc ''2024-02-29 12:00:00'' DEFAULT_FORMAT =
     Inr \<lparr> dt_year = 2024, dt_month = 2, dt_day = 29, dt_hour = 12, dt_minute = 0, dt_second = 0,
           dt_microsecond = 0, dt_tzinfo = None, dt_fold = 0 \<rparr>"
  by code_simp

lemma parse_2024_02_28:
  "strptime host_utc ''2024-02-28 13:30:15'' DEFAULT_FORMAT =
     Inr \<lparr> dt_year = 2024, dt_month = 2, dt_day = 28, dt_hour = 13, dt_minute = 30, dt_second = 15,
           dt_microsecond = 0, dt_tzinfo = None, dt_fold = 0 \<rparr>"
  by code_simp

theorem compare_times_difference_witness:
  "strptime host_utc ''2024-02-29 12:00:00'' DEFAULT_FORMAT =
     Inr \<lparr> dt_year = 2024, dt_month = 2, dt_day = 29, dt_hour = 12, dt_minute = 0, dt_second = 0,
           dt_microsecond = 0, dt_tzinfo = None, dt_fold = 0 \<rparr>
   \<and> strptime host_utc ''2024-02-28 13:30:15'' DEFAULT_FORMAT =
     Inr \<lparr> dt_year = 2024, dt_month = 2, dt_day = 28, dt_hour = 13, dt_minute = 30, dt_second = 15,
           dt_microsecond = 0, dt_tzinfo = None, dt_fold = 0 \<rparr>
   \<and> compare_times host_utc ''2024-02-29 12:00:00'' ''2024-02-28 13:30:15'' DEFAULT_FORMAT =
     Inr [(''time1'', VStr ''2024-02-29T12:00:00''),
          (''time2'', VStr ''2024-02-28T13:30:15''),
          (''difference_seconds'', VFloat (- 80985)),
          (''difference_days'', VInt (- 1)),
          (''difference_formatted'',
             VDict [(''days'', VInt 0), (''hours'', VInt 22), (''minutes'', VInt 29),
                    (''seconds'', VInt 45)]),
          (''time1_is_before_time2'', VBool False),
          (''time1_is_after_time2'', VBool True),
          (''times_are_equal'', VBool False)]
   \<and> (instant_us \<lparr> dt_year = 2024, dt_month = 2, dt_day = 28, dt_hour = 13, dt_minute = 30,
           dt_second = 15, dt_microsecond = 0, dt_tzinfo = None, dt_fold = 0 \<rparr>
        - instant_us \<lparr> dt_year = 2024, dt_month = 2, dt_day = 29, dt_hour = 12, dt_minute = 0,
           dt_second = 0, dt_microsecond = 0, dt_tzinfo = None, dt_fold = 0 \<rparr>) mod 1000000 = 0"
proof -
  obtain p where
    "compare_times host_utc ''2024-02-29 12:00:00'' ''2024-02-28 13:30:15'' DEFAULT_FORMAT = Inr p"
    using compare_times_difference [OF parse_2024_02_29 parse_2024_02_28] by blast
  moreover have "compare_times host_utc ''2024-02-29 12:00:00'' ''2024-02-28 13:30:15'' DEFAULT_FORMAT =
     Inr [(''time1'', VStr ''2024-02-29T12:00:00''),
          (''time2'', VStr ''2024-02-28T13:30:15''),
          (''difference_seconds'', VFloat (- 80985)),
          (''difference_days'', VInt (- 1)),
          (''difference_formatted'',
             VDict [(''days'', VInt 0), (''hours'', VInt 22), (''minutes'', VInt 29),
                    (''seconds'', VInt 45)]),
          (''time1_is_before_time2'', VBool False),
          (''time1_is_after_time2'', VBool True),
          (''times_are_equal'', VBool False)]"
    by code_simp
  moreover have "(instant_us \<lparr> dt_year = 2024, dt_month = 2, dt_day = 28, dt_hour = 13,
           dt_minute = 30, dt_second = 15, dt_microsecond = 0, dt_tzinfo = None, dt_fold = 0 \<rparr>
        - instant_us \<lparr> dt_year = 2024, dt_month = 2, dt_day = 29, dt_hour = 12, dt_minute = 0,
           dt_second = 0, dt_microsecond = 0, dt_tzinfo = None, dt_fold = 0 \<rparr>) mod 1000000 = 0"
    by code_simp
  ultimately show ?thesis using parse_2024_02_29 parse_2024_02_28 by simp
qed

text \<open>The claim as stated fails on a format with \<^verbatim>\<open>%f\<close>: the two instants are half a second
  apart, \<^verbatim>\<open>difference_seconds\<close> is 0.5, and the decomposition recombines to 0.\<close>

theorem compare_times_microseconds_counterexample:
  "compare_times host_utc ''2025-01-01 00:00:00.000000'' ''2025-01-01 00:00:00.500000''
      ''%Y-%m-%d %H:%M:%S.%f'' =
     Inr [(''time1'', VStr ''2025-01-01T00:00:00''),
          (''time2'', VStr ''2025-01-01T00:00:00.500000''),
          (''difference_seconds'', VFloat (1 / 2)),
          (''difference_days'', VInt 0),
          (''difference_formatted'',
             VDict [(''days'', VInt 0), (''hours'', VInt 0), (''minutes'', VInt 0),
                    (''seconds'', VInt 0)]),
          (''time1_is_before_time2'', VBool True),
          (''time1_is_after_time2'', VBool False),
          (''times_are_equal'', VBool False)]"
  by code_simp

text \<open>Over six centuries the double has no room for the microseconds: the difference of
  18934128000.999999 seconds is reported as 18934128001.0.\<close>

lemma compare_times_rounds_to_double:
  "compare_times host_utc ''1700-01-01 00:00:00.000000'' ''2300-01-01 00:00:00.999999''
      ''%Y-%m-%d %H:%M:%S.%f'' =
     Inr [(''time1'', VStr ''1700-01-01T00:00:00''),
          (''time2'', VStr ''2300-01-01T00:00:00.999999''),
          (''difference_seconds'', VFloat 18934128001),
          (''difference_days'', VInt 219145),
          (''difference_formatted'',
             VDict [(''days'', VInt 219145), (''hours'', VInt 0), (''minutes'', VInt 0),
                    (''seconds'', VInt 0)]),
          (''time1_is_before_time2'', VBool True),
          (''time1_is_after_time2'', VBool False),
          (''times_are_equal'', VBool False)]"
  by code_simp

section \<open>Timestamps beyond the platform range\<close>

text \<open>
  Claim C7 fails on the code. A timestamp that does not fit the platform's \<^verbatim>\<open>time_t\<close> makes
  \<^verbatim>\<open>datetime.fromtimestamp\<close> raise \<^verbatim>\<open>OverflowError\<close>, which is neither \<^verbatim>\<open>ValueError\<close> nor
  \<^verbatim>\<open>OSError\<close>: the handler that adds the hint is passed over, and the last handler returns
  the message alone. In every environment, for the timestamp \<open>10\<^sup>2\<^sup>0\<close> and no zone:
\<close>

theorem unix_to_datetime_overflow_without_hint:
  "unix_to_datetime E 100000000000000000000 None
     = Inr [(''error'', VStr ''timestamp out of range for platform time_t'')]"
  by (simp add: unix_to_datetime_def fromtimestamp_def as_time_t_def try_except_def
      except_Exception_def isinstance_def)

section \<open>Zone arguments outside the database\<close>

text \<open>
  Claim C4, as amended. A zone argument that is not in the timezone database makes
  \<^verbatim>\<open>get_timezone_info\<close> return the error payload with the hint; when the argument is not
  empty, \<^verbatim>\<open>get_current_time\<close> returns the error payload with the sample of valid names and
  \<^verbatim>\<open>unix_to_datetime\<close> the error payload with the hint. An empty zone argument is read by
  \<^verbatim>\<open>get_current_time\<close> and \<^verbatim>\<open>unix_to_datetime\<close> as no argument (\<^verbatim>\<open>if tz:\<close>).
\<close>

theorem invalid_zone_rejected:
  assumes "t \<notin> available_timezones E"
  shows "get_timezone_info E t
           = Inr [(''error'', VStr (''Invalid timezone: '' @ t)),
                  (''hint'', VStr ''Use list_timezones to see available options'')]
         \<and> (t \<noteq> [] \<longrightarrow>
              get_current_time E (Some t)
                = Inr [(''error'', VStr (''Invalid timezone: '' @ t)),
                       (''available_timezones_sample'',
                          VList (map VStr (take 10 (sorted_timezones E))))]
              \<and> unix_to_datetime E ts (Some t)
                = Inr [(''error'', VStr (''Invalid timezone: '' @ t)),
                       (''hint'', VStr ''Use list_timezones to see available options'')])
         \<and> get_current_time E (Some []) = get_current_time E None
         \<and> unix_to_datetime E ts (Some []) = unix_to_datetime E ts None"
  using assms
  by (simp add: get_timezone_info_def get_current_time_def unix_to_datetime_def Let_def)

lemma mars_not_a_zone: "''Mars/Phobos'' \<notin> available_timezones host_utc"
  by (simp add: available_timezones_def host_utc_def)

theorem invalid_zone_rejected_witness:
  "''Mars/Phobos'' \<notin> available_timezones host_utc \<and> ''Mars/Phobos'' \<noteq> []
   \<and> get_timezone_info host_utc ''Mars/Phobos''
       = Inr [(''error'', VStr ''Invalid timezone: Mars/Phobos''),
              (''hint'', VStr ''Use list_timezones to see available options'')]
   \<and> get_current_time host_utc (Some ''Mars/Phobos'')
       = Inr [(''error'', VStr ''Invalid timezone: Mars/Phobos''),
              (''available_timezones_sample'',
                 VList [VStr ''America/New_York'', VStr ''Asia/Tokyo'', VStr ''UTC''])]
   \<and> unix_to_datetime host_utc 0 (Some ''Mars/Phobos'')
       = Inr [(''error'', VStr ''Invalid timezone: Mars/Phobos''),
              (''hint'', VStr ''Use list_timezones to see available options'')]"
proof -
  have s: "take 10 (sorted_timezones host_utc) = [''America/New_York'', ''Asia/Tokyo'', ''UTC'']"
    by code_simp
  show ?thesis
    using invalid_zone_rejected [OF mars_not_a_zone, of 0] mars_not_a_zone by (simp add: s)
qed

text \<open>The claim as stated fails at the empty string, which is in no timezone database:
  both operations answer in local time.\<close>

theorem empty_zone_counterexample:
  "[] \<notin> available_timezones host_utc
   \<and> unix_to_datetime host_utc 0 (Some [])
       = Inr [(''unix_timestamp'', VInt 0), (''datetime'', VStr ''1970-01-01T00:00:00''),
              (''date'', VStr ''1970-01-01''), (''time'', VStr ''00:00:00''),
              (''formatted'', VStr ''Thursday, January 01, 1970 at 12:00:00 AM''),
              (''timezone'', VStr ''local'')]
   \<and> get_current_time host_utc (Some [])
       = Inr [(''datetime'', VStr ''2025-11-03T17:13:20''),
              (''date'', VStr ''2025-11-03''), (''time'', VStr ''17:13:20''),
              (''time_12h'', VStr ''05:13:20 PM''), (''timezone'', VStr ''local''),
              (''timezone_offset'', VStr []), (''day_of_week'', VStr ''Monday''),
              (''unix_timestamp'', VInt 1762190000),
              (''formatted'', VStr ''Monday, November 03, 2025 at 05:13:20 PM'')]"
  by code_simp

section \<open>The listing of the timezone names\<close>

lemma str_startswith_iff: "str_startswith s p \<longleftrightarrow> (\<exists>post. s = p @ post)"
  by (induction s p rule: str_startswith.induct) auto

lemma str_in_iff: "str_in a b \<longleftrightarrow> (\<exists>pre post. b = pre @ a @ post)"
proof (induction b)
  case Nil
  show ?case by auto
next
  case (Cons c cs)
  show ?case
  proof
    assume "str_in a (c # cs)"
    then consider "str_startswith (c # cs) a" | "str_in a cs" by auto
    then show "\<exists>pre post. c # cs = pre @ a @ post"
    proof cases
      case 1
      then obtain post where "c # cs = a @ post" by (auto simp: str_startswith_iff)
      then have "c # cs = [] @ a @ post" by simp
      then show ?thesis by blast
    next
      case 2
      then obtain pre post where "cs = pre @ a @ post" using Cons.IH by blast
      then have "c # cs = (c # pre) @ a @ post" by simp
      then show ?thesis by blast
    qed
  next
    assume "\<exists>pre post. c # cs = pre @ a @ post"
    then obtain pre post where e: "c # cs = pre @ a @ post" by blast
    show "str_in a (c # cs)"
    proof (cases pre)
      case Nil
      with e have "str_startswith (c # cs) a" by (auto simp: str_startswith_iff)
      then show ?thesis by simp
    next
      case (Cons x xs)
      with e have "cs = xs @ a @ post" by simp
      then have "str_in a cs" using Cons.IH by blast
      then show ?thesis by simp
    qed
  qed
qed

lemma contains_ignoring_case_iff:
  "contains_ignoring_case name t \<longleftrightarrow> str_in (lower t) (lower name)"
proof
  assume "contains_ignoring_case name t"
  then obtain pre w post where "name = pre @ w @ post" "lower w = lower t"
    by (auto simp: contains_ignoring_case_def)
  then have "lower name = lower pre @ lower t @ lower post" by (simp add: lower_def)
  then show "str_in (lower t) (lower name)" unfolding str_in_iff by blast
next
  assume "str_in (lower t) (lower name)"
  then obtain P Q where "map py_lower_char name = P @ (lower t @ Q)"
    unfolding str_in_iff lower_def by auto
  then have "\<exists>us vs. name = us @ vs \<and> P = map py_lower_char us
      \<and> lower t @ Q = map py_lower_char vs"
    by (simp only: map_eq_append_conv)
  then obtain pre rest where n1: "name = pre @ rest"
    and n2: "lower t @ Q = map py_lower_char rest" by blast
  from n2 have "map py_lower_char rest = lower t @ Q" by simp
  then have "\<exists>us vs. rest = us @ vs \<and> lower t = map py_lower_char us \<and> Q = map py_lower_char vs"
    by (simp only: map_eq_append_conv)
  then obtain w post where n3: "rest = w @ post" and n4: "lower t = map py_lower_char w"
    by blast
  from n1 n3 n4 show "contains_ignoring_case name t"
    unfolding contains_ignoring_case_def lower_def by metis
qed

lemma sorted_filter_plain: "sorted xs \<Longrightarrow> sorted (filter P xs)"
  by (induction xs) auto

lemma contains_ignoring_case_empty: "contains_ignoring_case name []"
  unfolding contains_ignoring_case_def by (intro exI [of _ "[]"] exI [of _ name]) (simp add: lower_def)

text \<open>
  Claim C9. Without a filter \<^verbatim>\<open>list_timezones\<close> returns all the names of the timezone database,
  each once, in ascending order, and \<^verbatim>\<open>count\<close> is the length of the sequence. With a filter it
  returns, in the same order, exactly the names that contain the filter text when the case
  of letters is ignored, and \<^verbatim>\<open>count\<close> is again the length of the sequence.
\<close>

theorem list_timezones_sorted_and_filtered:
  "list_timezones E None
     = Inr [(''count'', VInt (int (length (sorted_timezones E)))),
            (''timezones'', VList (map VStr (sorted_timezones E)))]
   \<and> list_timezones E (Some t)
     = Inr [(''count'',
              VInt (int (length (filter (\<lambda>z. contains_ignoring_case z t) (sorted_timezones E))))),
            (''timezones'',
              VList (map VStr (filter (\<lambda>z. contains_ignoring_case z t) (sorted_timezones E))))]
   \<and> sorted (sorted_timezones E) \<and> distinct (sorted_timezones E)
   \<and> set (sorted_timezones E) = available_timezones E
   \<and> sorted (filter (\<lambda>z. contains_ignoring_case z t) (sorted_timezones E))"
proof -
  have all: "filter (\<lambda>z. contains_ignoring_case z []) (sorted_timezones E) = sorted_timezones E"
    by (simp add: contains_ignoring_case_empty)
  have fin: "finite (available_timezones E)" by (simp add: available_timezones_def)
  have srt: "sorted (sorted_timezones E)" by (simp add: sorted_timezones_def)
  have c1: "list_timezones E None
     = Inr [(''count'', VInt (int (length (sorted_timezones E)))),
            (''timezones'', VList (map VStr (sorted_timezones E)))]"
    by (simp add: list_timezones_def Let_def)
  have c2: "list_timezones E (Some t)
     = Inr [(''count'',
              VInt (int (length (filter (\<lambda>z. contains_ignoring_case z t) (sorted_timezones E))))),
            (''timezones'',
              VList (map VStr (filter (\<lambda>z. contains_ignoring_case z t) (sorted_timezones E))))]"
  proof (cases "t = []")
    case True
    then show ?thesis unfolding True all by (simp add: list_timezones_def Let_def)
  next
    case False
    then show ?thesis by (simp add: list_timezones_def Let_def contains_ignoring_case_iff)
  qed
  have c3: "distinct (sorted_timezones E)" "set (sorted_timezones E) = available_timezones E"
    using fin by (simp_all add: sorted_timezones_def)
  from c1 c2 srt c3 sorted_filter_plain [OF srt] show ?thesis by blast
qed

end
